theory Spec2Isabelle
  imports Main
begin

section \<open>Dates and date ranges (betty/locale.py)\<close>

text \<open>
  Exceptions are values. \<open>IllegalMonthError\<close> is the exception of the standard
  library's \<open>calendar.monthrange\<close>; it and \<open>IncompleteDateError\<close> are subclasses of
  \<open>ValueError\<close>, which \<open>is_ValueError\<close> records.
\<close>

datatype error = TypeError | ValueError | IllegalMonthError | IncompleteDateError

fun is_ValueError :: "error \<Rightarrow> bool" where
  "is_ValueError TypeError = False"
| "is_ValueError ValueError = True"
| "is_ValueError IllegalMonthError = True"
| "is_ValueError IncompleteDateError = True"

text \<open>The class \<open>Date\<close>: three optional parts and the fuzzy flag.\<close>

record Date =
  year :: "int option"
  month :: "int option"
  day :: "int option"
  fuzzy :: bool

text \<open>
  The class \<open>DateRange\<close>. The source's field \<open>end\<close> is written \<open>end'\<close>.
\<close>

record DateRange =
  start :: "Date option"
  start_is_boundary :: bool
  end' :: "Date option"
  end_is_boundary :: bool

datatype Datey = ADate Date | ARange DateRange

text \<open>The constructors with the defaults of \<open>__init__\<close> left off.\<close>

definition new_Date :: "int option \<Rightarrow> int option \<Rightarrow> int option \<Rightarrow> Date" where
  "new_Date y m d = \<lparr>year = y, month = m, day = d, fuzzy = False\<rparr>"

definition new_DateRange :: "Date option \<Rightarrow> Date option \<Rightarrow> DateRange" where
  "new_DateRange s e = \<lparr>start = s, start_is_boundary = False, end' = e, end_is_boundary = False\<rparr>"

definition comparable :: "Date \<Rightarrow> bool" where
  "comparable self = (year self \<noteq> None)"

definition complete :: "Date \<Rightarrow> bool" where
  "complete self = (year self \<noteq> None \<and> month self \<noteq> None \<and> day self \<noteq> None)"

definition parts :: "Date \<Rightarrow> int option list" where
  "parts self = [year self, month self, day self]"

subsection \<open>The standard library's \<open>calendar.monthrange\<close>\<close>

definition isleap :: "int \<Rightarrow> bool" where
  "isleap y = (y mod 4 = 0 \<and> (y mod 100 \<noteq> 0 \<or> y mod 400 = 0))"

definition mdays :: "int \<Rightarrow> int" where
  "mdays m = (if m = 2 then 28 else if m = 4 \<or> m = 6 \<or> m = 9 \<or> m = 11 then 30 else 31)"

text \<open>
  \<open>monthrange year month\<close> is the second component of \<open>calendar.monthrange\<close>, the
  number of days of the month. The first component, the weekday, is computed on a year
  brought into the range of \<open>datetime\<close> and raises nothing once the month is legal.
\<close>

definition monthrange :: "int \<Rightarrow> int \<Rightarrow> error + int" where
  "monthrange y m =
     (if \<not> (1 \<le> m \<and> m \<le> 12) then Inl IllegalMonthError
      else Inr (mdays m + (if m = 2 \<and> isleap y then 1 else 0)))"

subsection \<open>\<open>Date.to_range\<close>\<close>

definition to_range :: "Date \<Rightarrow> error + DateRange" where
  "to_range self =
     (case year self of
        None \<Rightarrow> Inl ValueError
      | Some y \<Rightarrow>
          (let (month_start, month_end) =
                 (case month self of None \<Rightarrow> (1, 12) | Some m \<Rightarrow> (m, m))
           in case day self of
                None \<Rightarrow>
                  (case monthrange y month_end of
                     Inl e \<Rightarrow> Inl e
                   | Inr day_end \<Rightarrow>
                       Inr (new_DateRange
                             (Some (new_Date (Some y) (Some month_start) (Some 1)))
                             (Some (new_Date (Some y) (Some month_end) (Some day_end)))))
              | Some d \<Rightarrow>
                  Inr (new_DateRange
                        (Some (new_Date (Some y) (Some month_start) (Some d)))
                        (Some (new_Date (Some y) (Some month_end) (Some d))))))"

subsection \<open>Comparison\<close>

text \<open>
  What a comparison method or a comparison expression returns: the sentinel
  \<open>NotImplemented\<close>, \<open>None\<close> (a method that falls off its end) or a boolean.
\<close>

datatype pyobj = NotImplemented | PyNone | PyBool bool

fun truthy :: "pyobj \<Rightarrow> bool" where
  "truthy (PyBool b) = b"
| "truthy PyNone = False"
| "truthy NotImplemented = True"

text \<open>The functions of the module \<open>operator\<close> handed to \<open>Date._compare\<close>.\<close>

datatype comparator = Lt | Le | Ge | Gt

fun swapped :: "comparator \<Rightarrow> comparator" where
  "swapped Lt = Gt"
| "swapped Le = Ge"
| "swapped Ge = Le"
| "swapped Gt = Lt"

fun int_cmp :: "comparator \<Rightarrow> int \<Rightarrow> int \<Rightarrow> bool" where
  "int_cmp Lt a b = (a < b)"
| "int_cmp Le a b = (a \<le> b)"
| "int_cmp Ge a b = (a \<ge> b)"
| "int_cmp Gt a b = (a > b)"

text \<open>
  Python's comparison of two tuples of optional integers: the first pair of items that
  differ decides, and ordering \<open>None\<close> against anything is a \<open>TypeError\<close>; tuples
  that agree on every common item are ordered by length.
\<close>

fun item_cmp :: "comparator \<Rightarrow> int option \<Rightarrow> int option \<Rightarrow> error + pyobj" where
  "item_cmp c (Some a) (Some b) = Inr (PyBool (int_cmp c a b))"
| "item_cmp c _ _ = Inl TypeError"

fun tuple_cmp :: "comparator \<Rightarrow> int option list \<Rightarrow> int option list \<Rightarrow> error + pyobj" where
  "tuple_cmp c [] [] = Inr (PyBool (c = Le \<or> c = Ge))"
| "tuple_cmp c [] (y # ys) = Inr (PyBool (c = Lt \<or> c = Le))"
| "tuple_cmp c (x # xs) [] = Inr (PyBool (c = Ge \<or> c = Gt))"
| "tuple_cmp c (x # xs) (y # ys) = (if x = y then tuple_cmp c xs ys else item_cmp c x y)"

text \<open>\<open>DateRange.comparable\<close>, and \<open>comparable\<close> of either class.\<close>

definition has_comparable :: "Date option \<Rightarrow> bool" where
  "has_comparable d = (case d of None \<Rightarrow> False | Some x \<Rightarrow> comparable x)"

definition range_comparable :: "DateRange \<Rightarrow> bool" where
  "range_comparable self = (has_comparable (start self) \<or> has_comparable (end' self))"

fun datey_comparable :: "Datey \<Rightarrow> bool" where
  "datey_comparable (ADate d) = comparable d"
| "datey_comparable (ARange r) = range_comparable r"

text \<open>
  \<open>Date.__eq__\<close> compares the parts. Between two optional dates (the items of the tuple
  that \<open>DateRange.__eq__\<close> compares) \<open>None\<close> equals \<open>None\<close> only.
\<close>

definition Date_eq :: "Date \<Rightarrow> Date \<Rightarrow> bool" where
  "Date_eq self other = (parts self = parts other)"

fun opt_Date_eq :: "Date option \<Rightarrow> Date option \<Rightarrow> bool" where
  "opt_Date_eq None None = True"
| "opt_Date_eq (Some a) (Some b) = Date_eq a b"
| "opt_Date_eq _ _ = False"

fun DateRange_eq :: "DateRange \<Rightarrow> Datey option \<Rightarrow> bool" where
  "DateRange_eq self (Some (ARange other)) =
     (opt_Date_eq (start self) (start other) \<and> opt_Date_eq (end' self) (end' other)
      \<and> start_is_boundary self = start_is_boundary other
      \<and> end_is_boundary self = end_is_boundary other)"
| "DateRange_eq self _ = False"

text \<open>
  What \<open>functools.total_ordering\<close> adds to \<open>DateRange\<close>, which defines \<open>__lt__\<close> and
  \<open>__eq__\<close> only: each takes the result of \<open>__lt__\<close> and of \<open>self == other\<close>.
\<close>

definition le_from_lt :: "pyobj \<Rightarrow> bool \<Rightarrow> pyobj" where
  "le_from_lt op_result eq =
     (if op_result = NotImplemented then op_result
      else if truthy op_result then op_result else PyBool eq)"

definition gt_from_lt :: "pyobj \<Rightarrow> bool \<Rightarrow> pyobj" where
  "gt_from_lt op_result eq =
     (if op_result = NotImplemented then op_result
      else PyBool (\<not> truthy op_result \<and> \<not> eq))"

definition ge_from_lt :: "pyobj \<Rightarrow> pyobj" where
  "ge_from_lt op_result =
     (if op_result = NotImplemented then op_result
      else PyBool (\<not> truthy op_result))"

definition operand :: "Date option \<Rightarrow> Datey option" where
  "operand d = map_option ADate d"

text \<open>
  The measure of the recursion: an incomplete date is widened once, to a range whose two
  boundaries are complete, and a range is compared through its boundaries.
\<close>

definition date_weight :: "Date option \<Rightarrow> nat" where
  "date_weight d = (case d of None \<Rightarrow> 0 | Some x \<Rightarrow> if complete x then 0 else 2)"

fun weight :: "Datey option \<Rightarrow> nat" where
  "weight None = 0"
| "weight (Some (ADate d)) = date_weight (Some d)"
| "weight (Some (ARange r)) = 1 + date_weight (start r) + date_weight (end' r)"

text \<open>
  \<open>widen\<close> is the pair of statements \<open>if not x.complete: x = x.to_range()\<close> of
  \<open>Date._compare\<close>.
\<close>

definition widen :: "Date \<Rightarrow> error + Datey" where
  "widen d = (if \<not> complete d then (case to_range d of Inl e \<Rightarrow> Inl e | Inr r \<Rightarrow> Inr (ARange r))
              else Inr (ADate d))"

lemma to_range_weight: "to_range d = Inr r \<Longrightarrow> weight (Some (ARange r)) = 1"
  by (auto simp: to_range_def new_DateRange_def new_Date_def date_weight_def complete_def
           split: option.splits sum.splits prod.splits)

lemma widen_weight_less:
  "widen d = Inr x \<Longrightarrow> \<not> complete d \<Longrightarrow> weight (Some x) < weight (Some (ADate d))"
proof -
  assume w: "widen d = Inr x" and inc: "\<not> complete d"
  then obtain r where r: "to_range d = Inr r" and x: "x = ARange r"
    by (auto simp: widen_def split: sum.splits)
  have "weight (Some (ADate d)) = 2" using inc by (simp add: date_weight_def)
  then show ?thesis using to_range_weight[OF r] x by simp
qed

lemma widen_weight: "widen d = Inr x \<Longrightarrow> weight (Some x) \<le> weight (Some (ADate d))"
proof (cases "complete d")
  case True
  assume "widen d = Inr x"
  then show ?thesis using True by (simp add: widen_def)
next
  case False
  assume "widen d = Inr x"
  then show ?thesis using widen_weight_less[of d x] False by simp
qed

lemma weight_operand: "weight (operand d) = date_weight d"
  by (cases d) (simp_all add: operand_def date_weight_def)

text \<open>
  The comparison expression \<open>a op b\<close> and the methods behind it.
  \<^item> \<open>py_cmp c a b\<close> is the expression: the method of \<open>a\<close>, then (when that returns
    \<open>NotImplemented\<close>) the reflected method of \<open>b\<close>, then \<open>TypeError\<close>. An operand may
    be \<open>None\<close>, whose methods return \<open>NotImplemented\<close>.
  \<^item> \<open>richcmp c a b\<close> is the method \<open>__lt__\<close>, \<open>__le__\<close>, \<open>__ge__\<close> or \<open>__gt__\<close> of
    \<open>a\<close>: of \<open>Date\<close> through \<open>_compare\<close>, of \<open>DateRange\<close> \<open>__lt__\<close> itself and the
    three that \<open>total_ordering\<close> derives from it.
  \<^item> \<open>Date_compare\<close> is \<open>Date._compare\<close> and \<open>DateRange_lt\<close> is \<open>DateRange.__lt__\<close>.
\<close>

function py_cmp :: "comparator \<Rightarrow> Datey option \<Rightarrow> Datey option \<Rightarrow> error + pyobj"
  and richcmp :: "comparator \<Rightarrow> Datey \<Rightarrow> Datey option \<Rightarrow> error + pyobj"
  and Date_compare :: "Date \<Rightarrow> Datey option \<Rightarrow> comparator \<Rightarrow> error + pyobj"
  and DateRange_lt :: "DateRange \<Rightarrow> Datey option \<Rightarrow> error + pyobj"
where
  "py_cmp c a b =
     (case (case a of None \<Rightarrow> Inr NotImplemented | Some x \<Rightarrow> richcmp c x b) of
        Inl e \<Rightarrow> Inl e
      | Inr res \<Rightarrow>
          if res \<noteq> NotImplemented then Inr res
          else (case (case b of None \<Rightarrow> Inr NotImplemented
                      | Some y \<Rightarrow> richcmp (swapped c) y a) of
                  Inl e \<Rightarrow> Inl e
                | Inr res' \<Rightarrow> if res' \<noteq> NotImplemented then Inr res' else Inl TypeError))"
| "richcmp c x b =
     (case x of
        ADate d \<Rightarrow> Date_compare d b c
      | ARange r \<Rightarrow>
          (case DateRange_lt r b of
             Inl e \<Rightarrow> Inl e
           | Inr op_result \<Rightarrow>
               Inr (case c of
                      Lt \<Rightarrow> op_result
                    | Le \<Rightarrow> le_from_lt op_result (DateRange_eq r b)
                    | Gt \<Rightarrow> gt_from_lt op_result (DateRange_eq r b)
                    | Ge \<Rightarrow> ge_from_lt op_result)))"
| "Date_compare self other c =
     (case other of
        Some (ADate other) \<Rightarrow>
          if \<not> comparable self \<or> \<not> comparable other then Inr NotImplemented
          else if complete self \<and> complete other then tuple_cmp c (parts self) (parts other)
          else (case widen other of
                  Inl e \<Rightarrow> Inl e
                | Inr other' \<Rightarrow>
                    (case widen self of
                       Inl e \<Rightarrow> Inl e
                     | Inr selfish \<Rightarrow> py_cmp c (Some selfish) (Some other')))
      | _ \<Rightarrow> Inr NotImplemented)"
| "DateRange_lt self other =
     (case other of
        None \<Rightarrow> Inr NotImplemented
      | Some other \<Rightarrow>
          if \<not> range_comparable self \<or> \<not> datey_comparable other then Inr NotImplemented
          else
            (let self_has_start = has_comparable (start self);
                 self_has_end = has_comparable (end' self)
             in case other of
                  ARange other \<Rightarrow>
                    (let other_has_start = has_comparable (start other);
                         other_has_end = has_comparable (end' other)
                     in if self_has_start \<and> other_has_start then
                          (if opt_Date_eq (start self) (start other) then
                             (if \<not> has_comparable (end' self)
                                 \<and> (end' other = None \<or> has_comparable (end' other))
                              then Inr (PyBool False)
                              else if self_has_end \<and> other_has_end
                              then py_cmp Lt (operand (end' self)) (operand (end' other))
                              else Inr (PyBool (end' other = None)))
                           else py_cmp Lt (operand (start self)) (operand (start other)))
                        else if self_has_start then
                          py_cmp Lt (operand (start self)) (operand (end' other))
                        else if other_has_start then
                          py_cmp Le (operand (end' self)) (operand (start other))
                        else py_cmp Lt (operand (end' self)) (operand (end' other)))
                | ADate other \<Rightarrow>
                    if self_has_start then py_cmp Lt (operand (start self)) (Some (ADate other))
                    else if self_has_end then py_cmp Le (operand (end' self)) (Some (ADate other))
                    else Inr PyNone))"
  by pat_completeness auto
termination
proof (relation "measure (\<lambda>s. case s of
          Inl (Inl (c, a, b)) \<Rightarrow> 3 * (weight a + weight b) + 2
        | Inl (Inr (c, x, b)) \<Rightarrow> 3 * (weight (Some x) + weight b) + 1
        | Inr (Inl (d, b, c)) \<Rightarrow> 3 * (weight (Some (ADate d)) + weight b)
        | Inr (Inr (r, b)) \<Rightarrow> 3 * (weight (Some (ARange r)) + weight b))",
       goal_cases)
  case 1
  show ?case by simp
next
  case (2 c a b x2)
  then show ?case by simp
next
  case (3 c a b x2 x2a)
  then show ?case by simp
next
  case (4 c x b x1)
  then show ?case by simp
next
  case (5 c x b x2)
  then show ?case by simp
next
  case (6 self other c x2 x1 x2a x2b)
  have "weight (Some x2b) + weight (Some x2a) < weight (Some (ADate self)) + weight (Some (ADate x1))"
    using 6 widen_weight[of self x2b] widen_weight[of x1 x2a]
          widen_weight_less[of self x2b] widen_weight_less[of x1 x2a]
    by (cases "complete self") auto
  then show ?case using 6 by simp
qed (simp_all add: weight_operand)

declare py_cmp.simps [simp del] richcmp.simps [simp del]
  Date_compare.simps [simp del] DateRange_lt.simps [simp del]

subsection \<open>The calendar, as the claims word it\<close>

text \<open>
  The last day of a month by the Gregorian rule, written independently of
  \<open>monthrange\<close>, and the two months that \<open>to_range\<close> picks.
\<close>

definition gregorian_leap :: "int \<Rightarrow> bool" where
  "gregorian_leap y = ((4 dvd y \<and> \<not> 100 dvd y) \<or> 400 dvd y)"

definition last_day :: "int \<Rightarrow> int \<Rightarrow> int" where
  "last_day y m =
     (if m = 2 then (if gregorian_leap y then 29 else 28)
      else if m \<in> {4, 6, 9, 11} then 30 else 31)"

definition month_start_of :: "Date \<Rightarrow> int" where
  "month_start_of d = (case month d of None \<Rightarrow> 1 | Some m \<Rightarrow> m)"

definition month_end_of :: "Date \<Rightarrow> int" where
  "month_end_of d = (case month d of None \<Rightarrow> 12 | Some m \<Rightarrow> m)"


subsection \<open>Containment: \<open>DateRange.__contains__\<close>\<close>

text \<open>
  The loop \<open>for x in xs: if cond(x): return True\<close>: whether it returned, or the
  exception that a condition raised.
\<close>

fun for_any :: "('a \<Rightarrow> error + pyobj) \<Rightarrow> 'a list \<Rightarrow> error + bool" where
  "for_any cond [] = Inr False"
| "for_any cond (x # xs) =
     (case cond x of
        Inl e \<Rightarrow> Inl e
      | Inr v \<Rightarrow> if truthy v then Inr True else for_any cond xs)"

text \<open>The chained comparison \<open>a <= b <= c\<close> and the expression \<open>x or y\<close>.\<close>

definition chain_le :: "Datey option \<Rightarrow> Datey option \<Rightarrow> Datey option \<Rightarrow> error + pyobj" where
  "chain_le a b c =
     (case py_cmp Le a b of
        Inl e \<Rightarrow> Inl e
      | Inr v \<Rightarrow> if truthy v then py_cmp Le b c else Inr v)"

definition py_or :: "error + pyobj \<Rightarrow> error + pyobj \<Rightarrow> error + pyobj" where
  "py_or x y = (case x of Inl e \<Rightarrow> Inl e | Inr v \<Rightarrow> if truthy v then Inr v else y)"

text \<open>The list \<open>others\<close> of a range: its comparable boundaries, start first.\<close>

definition comparable_dates :: "Date option \<Rightarrow> Date list" where
  "comparable_dates d = (case d of None \<Rightarrow> [] | Some x \<Rightarrow> if comparable x then [x] else [])"

text \<open>
  \<open>DateRange_contains self other\<close> is \<open>self.__contains__(other)\<close>: \<open>True\<close>,
  \<open>False\<close>, or \<open>None\<close> where the method falls off its end. The expression
  \<open>other in self\<close> is its truth value, \<open>py_in\<close>.
\<close>

definition DateRange_contains :: "DateRange \<Rightarrow> Datey \<Rightarrow> error + pyobj" where
  "DateRange_contains self other =
     (if \<not> range_comparable self then Inr (PyBool False)
      else if (case other of ADate _ \<Rightarrow> False | ARange r \<Rightarrow> \<not> range_comparable r)
      then Inr (PyBool False)
      else
        (let others = (case other of
                         ADate d \<Rightarrow> [d]
                       | ARange r \<Rightarrow> comparable_dates (start r) @ comparable_dates (end' r))
         in if start self \<noteq> None \<and> end' self \<noteq> None then
              (case (case other of
                       ARange r \<Rightarrow>
                         if start r = None then
                           Some (py_or (py_cmp Le (operand (start self)) (operand (end' r)))
                                       (py_cmp Le (operand (end' self)) (operand (end' r))))
                         else if end' r = None then
                           Some (py_or (py_cmp Ge (operand (start self)) (operand (start r)))
                                       (py_cmp Ge (operand (end' self)) (operand (start r))))
                         else None
                     | ADate _ \<Rightarrow> None) of
                 Some returned \<Rightarrow> returned
               | None \<Rightarrow>
                   (case for_any (\<lambda>another. chain_le (operand (start self)) (Some (ADate another))
                                                    (operand (end' self))) others of
                      Inl e \<Rightarrow> Inl e
                    | Inr True \<Rightarrow> Inr (PyBool True)
                    | Inr False \<Rightarrow>
                        (case other of
                           ARange r \<Rightarrow>
                             (case for_any (\<lambda>selfdate. chain_le (operand (start r)) (operand selfdate)
                                                              (operand (end' r)))
                                     [start self, end' self] of
                                Inl e \<Rightarrow> Inl e
                              | Inr True \<Rightarrow> Inr (PyBool True)
                              | Inr False \<Rightarrow> Inr PyNone)
                         | ADate _ \<Rightarrow> Inr PyNone)))
            else if start self \<noteq> None then
              (if (case other of ARange r \<Rightarrow> end' r = None | ADate _ \<Rightarrow> False)
               then Inr (PyBool True)
               else (case for_any (\<lambda>x. py_cmp Le (operand (start self)) (Some (ADate x))) others of
                       Inl e \<Rightarrow> Inl e
                     | Inr True \<Rightarrow> Inr (PyBool True)
                     | Inr False \<Rightarrow> Inr PyNone))
            else if end' self \<noteq> None then
              (if (case other of ARange r \<Rightarrow> start r = None | ADate _ \<Rightarrow> False)
               then Inr (PyBool True)
               else (case for_any (\<lambda>x. py_cmp Le (Some (ADate x)) (operand (end' self))) others of
                       Inl e \<Rightarrow> Inl e
                     | Inr True \<Rightarrow> Inr (PyBool True)
                     | Inr False \<Rightarrow> Inr PyNone))
            else Inr PyNone))"

definition py_in :: "Datey \<Rightarrow> DateRange \<Rightarrow> error + bool" where
  "py_in other self =
     (case DateRange_contains self other of Inl e \<Rightarrow> Inl e | Inr v \<Rightarrow> Inr (truthy v))"

subsection \<open>Overlap, as the claims word it\<close>

text \<open>
  The calendar order of two complete dates, and whether the bounded range from \<open>s\<close> to
  \<open>e\<close> meets a candidate: a date inside it, or a range that starts no later than \<open>e\<close>
  and ends no earlier than \<open>s\<close>, a missing boundary leaving that side open.
\<close>

definition before_eq :: "Date \<Rightarrow> Date \<Rightarrow> bool" where
  "before_eq a b =
     (case (year a, month a, day a, year b, month b, day b) of
        (Some y, Some m, Some x, Some y', Some m', Some x') \<Rightarrow>
          y < y' \<or> (y = y' \<and> (m < m' \<or> (m = m' \<and> x \<le> x')))
      | _ \<Rightarrow> False)"

fun intersects :: "Date \<Rightarrow> Date \<Rightarrow> Datey \<Rightarrow> bool" where
  "intersects s e (ADate x) = (before_eq s x \<and> before_eq x e)"
| "intersects s e (ARange r) =
     ((case end' r of None \<Rightarrow> True | Some e2 \<Rightarrow> before_eq s e2)
      \<and> (case start r of None \<Rightarrow> True | Some s2 \<Rightarrow> before_eq s2 e))"

text \<open>
  A candidate the overlap is stated for: a complete date, or a range with at least one
  boundary whose boundaries are complete and in order.
\<close>

fun well_formed :: "Datey \<Rightarrow> bool" where
  "well_formed (ADate x) = complete x"
| "well_formed (ARange r) =
     (case (start r, end' r) of
        (None, None) \<Rightarrow> False
      | (Some s2, None) \<Rightarrow> complete s2
      | (None, Some e2) \<Rightarrow> complete e2
      | (Some s2, Some e2) \<Rightarrow> complete s2 \<and> complete e2 \<and> before_eq s2 e2)"

text \<open>The complete date \<open>Date(y, m, x)\<close>.\<close>

definition ymd :: "int \<Rightarrow> int \<Rightarrow> int \<Rightarrow> Date" where
  "ymd y m x = new_Date (Some y) (Some m) (Some x)"


subsection \<open>Widened comparison, as the claims word it\<close>

text \<open>
  The strict calendar order of two complete dates; the first and the last day of the range
  that covers a date with a year; \<open>widenable\<close>, the dates \<open>to_range\<close> accepts; and the
  order between two covering ranges: by their first days, and by their last days when the
  first days are the same. \<open>compare_dates c d d2\<close> is the expression \<open>d op d2\<close> on two
  dates.
\<close>

definition before :: "Date \<Rightarrow> Date \<Rightarrow> bool" where
  "before a b =
     (case (year a, month a, day a, year b, month b, day b) of
        (Some y, Some m, Some x, Some y', Some m', Some x') \<Rightarrow>
          y < y' \<or> (y = y' \<and> (m < m' \<or> (m = m' \<and> x < x')))
      | _ \<Rightarrow> False)"

definition range_first :: "Date \<Rightarrow> Date" where
  "range_first d =
     new_Date (year d) (Some (month_start_of d)) (Some (case day d of None \<Rightarrow> 1 | Some x \<Rightarrow> x))"

definition range_last :: "Date \<Rightarrow> Date" where
  "range_last d =
     new_Date (year d) (Some (month_end_of d))
       (Some (case day d of
                None \<Rightarrow> last_day (case year d of None \<Rightarrow> 0 | Some y \<Rightarrow> y) (month_end_of d)
              | Some x \<Rightarrow> x))"

definition widenable :: "Date \<Rightarrow> bool" where
  "widenable d = (comparable d \<and> (day d \<noteq> None \<or> (1 \<le> month_end_of d \<and> month_end_of d \<le> 12)))"

definition same_day :: "Date \<Rightarrow> Date \<Rightarrow> bool" where
  "same_day a b = (year a = year b \<and> month a = month b \<and> day a = day b)"

definition compare_dates :: "comparator \<Rightarrow> Date \<Rightarrow> Date \<Rightarrow> error + pyobj" where
  "compare_dates c d d2 = py_cmp c (Some (ADate d)) (Some (ADate d2))"

definition range_lt :: "Date \<Rightarrow> Date \<Rightarrow> bool" where
  "range_lt d d2 =
     (if same_day (range_first d) (range_first d2) then before (range_last d) (range_last d2)
      else before (range_first d) (range_first d2))"

definition range_same :: "Date \<Rightarrow> Date \<Rightarrow> bool" where
  "range_same d d2 =
     (same_day (range_first d) (range_first d2) \<and> same_day (range_last d) (range_last d2))"

subsection \<open>Formatting\<close>

text \<open>
  What formatting takes from outside the repository: the installed translations (the
  builtin \<open>_\<close>), Python's \<open>%\<close> on a string and a dictionary, and babel's
  \<open>dates.format_date\<close> on a calendar date, a pattern and a locale (with
  \<open>Locale.parse\<close> inside it).
\<close>

record locale_env =
  gettext :: "string \<Rightarrow> string"
  interpolate :: "string \<Rightarrow> (string \<times> string) list \<Rightarrow> error + string"
  babel_format_date :: "int \<times> int \<times> int \<Rightarrow> string \<Rightarrow> string \<Rightarrow> error + string"

definition bcp_47_to_rfc_1766 :: "string \<Rightarrow> string" where
  "bcp_47_to_rfc_1766 locale = map (\<lambda>ch. if ch = CHR ''-'' then CHR ''_'' else ch) locale"

text \<open>The constructor \<open>datetime.date\<close>, which raises \<open>ValueError\<close> off the calendar.\<close>

definition datetime_date :: "int \<Rightarrow> int \<Rightarrow> int \<Rightarrow> error + int \<times> int \<times> int" where
  "datetime_date y m x =
     (if 1 \<le> y \<and> y \<le> 9999 \<and> 1 \<le> m \<and> m \<le> 12 \<and> 1 \<le> x
         \<and> x \<le> mdays m + (if m = 2 \<and> isleap y then 1 else 0)
      then Inr (y, m, x) else Inl ValueError)"

text \<open>
  The table \<open>_FORMAT_DATE_PARTS_FORMATTERS\<close>, keyed by which of year, month and day are
  present; \<open>None\<close> is its \<open>KeyError\<close>.
\<close>

fun FORMAT_DATE_PARTS_FORMATTERS :: "bool \<times> bool \<times> bool \<Rightarrow> string option" where
  "FORMAT_DATE_PARTS_FORMATTERS (True, True, True) = Some ''MMMM d, y''"
| "FORMAT_DATE_PARTS_FORMATTERS (True, True, False) = Some ''MMMM, y''"
| "FORMAT_DATE_PARTS_FORMATTERS (True, False, False) = Some ''y''"
| "FORMAT_DATE_PARTS_FORMATTERS (False, True, True) = Some ''MMMM d''"
| "FORMAT_DATE_PARTS_FORMATTERS (False, True, False) = Some ''MMMM''"
| "FORMAT_DATE_PARTS_FORMATTERS _ = None"

definition or_1 :: "int option \<Rightarrow> int" where
  "or_1 p = (case p of None \<Rightarrow> 1 | Some v \<Rightarrow> v)"

definition format_date_parts :: "locale_env \<Rightarrow> Date option \<Rightarrow> string \<Rightarrow> error + string" where
  "format_date_parts env date locale =
     (case date of
        None \<Rightarrow> Inl IncompleteDateError
      | Some d \<Rightarrow>
          (case FORMAT_DATE_PARTS_FORMATTERS (year d \<noteq> None, month d \<noteq> None, day d \<noteq> None) of
             None \<Rightarrow> Inl IncompleteDateError
           | Some msgid \<Rightarrow>
               (let date_parts_format = gettext env msgid
                in case datetime_date (or_1 (year d)) (or_1 (month d)) (or_1 (day d)) of
                     Inl e \<Rightarrow> Inl e
                   | Inr dt \<Rightarrow>
                       babel_format_date env dt date_parts_format (bcp_47_to_rfc_1766 locale))))"

text \<open>The table \<open>_FORMAT_DATE_FORMATTERS\<close> and \<open>format_date\<close>.\<close>

definition FORMAT_DATE_FORMATTERS :: "bool \<Rightarrow> string" where
  "FORMAT_DATE_FORMATTERS fz = (if fz then ''around %(date)s'' else ''%(date)s'')"

definition format_date :: "locale_env \<Rightarrow> Date \<Rightarrow> string \<Rightarrow> error + string" where
  "format_date env date locale =
     (let phrase = gettext env (FORMAT_DATE_FORMATTERS (fuzzy date))
      in case format_date_parts env (Some date) locale of
           Inl e \<Rightarrow> Inl e
         | Inr s \<Rightarrow> interpolate env phrase [(''date'', s)])"

text \<open>
  The table \<open>_FORMAT_DATE_RANGE_FORMATTERS\<close>, in three parts by which sides are there:
  each side of the key is the pair (fuzzy, is boundary) of a rendered date, or
  \<open>(None, None)\<close>.
\<close>

fun RANGE_BOTH :: "bool \<times> bool \<Rightarrow> bool \<times> bool \<Rightarrow> string" where
  "RANGE_BOTH (False, False) (False, False) = ''from %(start_date)s until %(end_date)s''"
| "RANGE_BOTH (False, False) (False, True) = ''from %(start_date)s until sometime before %(end_date)s''"
| "RANGE_BOTH (False, False) (True, False) = ''from %(start_date)s until around %(end_date)s''"
| "RANGE_BOTH (False, False) (True, True) = ''from %(start_date)s until sometime before around %(end_date)s''"
| "RANGE_BOTH (False, True) (False, False) = ''from sometime after %(start_date)s until %(end_date)s''"
| "RANGE_BOTH (False, True) (False, True) = ''sometime between %(start_date)s and %(end_date)s''"
| "RANGE_BOTH (False, True) (True, False) = ''from sometime after %(start_date)s until around %(end_date)s''"
| "RANGE_BOTH (False, True) (True, True) = ''sometime between %(start_date)s and around %(end_date)s''"
| "RANGE_BOTH (True, False) (False, False) = ''from around %(start_date)s until %(end_date)s''"
| "RANGE_BOTH (True, False) (False, True) = ''from around %(start_date)s until sometime before %(end_date)s''"
| "RANGE_BOTH (True, False) (True, False) = ''from around %(start_date)s until around %(end_date)s''"
| "RANGE_BOTH (True, False) (True, True) = ''from around %(start_date)s until sometime before around %(end_date)s''"
| "RANGE_BOTH (True, True) (False, False) = ''from sometime after around %(start_date)s until %(end_date)s''"
| "RANGE_BOTH (True, True) (False, True) = ''sometime between around %(start_date)s and %(end_date)s''"
| "RANGE_BOTH (True, True) (True, False) = ''from sometime after around %(start_date)s until around %(end_date)s''"
| "RANGE_BOTH (True, True) (True, True) = ''sometime between around %(start_date)s and around %(end_date)s''"

fun RANGE_START :: "bool \<times> bool \<Rightarrow> string" where
  "RANGE_START (False, False) = ''from %(start_date)s''"
| "RANGE_START (False, True) = ''sometime after %(start_date)s''"
| "RANGE_START (True, False) = ''from around %(start_date)s''"
| "RANGE_START (True, True) = ''sometime after around %(start_date)s''"

fun RANGE_END :: "bool \<times> bool \<Rightarrow> string" where
  "RANGE_END (False, False) = ''until %(end_date)s''"
| "RANGE_END (False, True) = ''sometime before %(end_date)s''"
| "RANGE_END (True, False) = ''until around %(end_date)s''"
| "RANGE_END (True, True) = ''sometime before around %(end_date)s''"

text \<open>
  One \<open>try\<close> block of \<open>format_date_range\<close>: the rendered boundary with its two key
  items, \<open>None\<close> where \<open>IncompleteDateError\<close> was caught (a missing boundary is
  \<open>_format_date_parts(None)\<close>, which raises it); any other exception goes on.
\<close>

definition range_side ::
  "locale_env \<Rightarrow> Date option \<Rightarrow> bool \<Rightarrow> string \<Rightarrow> error + (string \<times> bool \<times> bool) option" where
  "range_side env date is_boundary locale =
     (case date of
        None \<Rightarrow>
          (case format_date_parts env None locale of
             Inl e \<Rightarrow> if e = IncompleteDateError then Inr None else Inl e
           | Inr s \<Rightarrow> Inr None)
      | Some d \<Rightarrow>
          (case format_date_parts env (Some d) locale of
             Inl e \<Rightarrow> if e = IncompleteDateError then Inr None else Inl e
           | Inr s \<Rightarrow> Inr (Some (s, fuzzy d, is_boundary))))"

definition format_date_range :: "locale_env \<Rightarrow> DateRange \<Rightarrow> string \<Rightarrow> error + string" where
  "format_date_range env date_range locale =
     (case range_side env (start date_range) (start_is_boundary date_range) locale of
        Inl e \<Rightarrow> Inl e
      | Inr start_side \<Rightarrow>
          (case range_side env (end' date_range) (end_is_boundary date_range) locale of
             Inl e \<Rightarrow> Inl e
           | Inr end_side \<Rightarrow>
               (case (start_side, end_side) of
                  (None, None) \<Rightarrow> Inl IncompleteDateError
                | (Some (s, sk), None) \<Rightarrow>
                    interpolate env (gettext env (RANGE_START sk)) [(''start_date'', s)]
                | (None, Some (e, ek)) \<Rightarrow>
                    interpolate env (gettext env (RANGE_END ek)) [(''end_date'', e)]
                | (Some (s, sk), Some (e, ek)) \<Rightarrow>
                    interpolate env (gettext env (RANGE_BOTH sk ek))
                      [(''start_date'', s), (''end_date'', e)])))"

text \<open>\<open>format_datey\<close>: one \<open>try\<close> block around both branches.\<close>

definition format_datey :: "locale_env \<Rightarrow> Datey \<Rightarrow> string \<Rightarrow> error + string" where
  "format_datey env date locale =
     (case (case date of
              ADate d \<Rightarrow> format_date env d locale
            | ARange r \<Rightarrow> format_date_range env r locale) of
        Inl e \<Rightarrow> if e = IncompleteDateError then Inr (gettext env ''unknown date'') else Inl e
      | Inr s \<Rightarrow> Inr s)"

subsection \<open>Rendering, as the claims word it\<close>

text \<open>
  A date has enough parts to render when it has a month, or a year and no day. A stand-in
  for the outside world, for evaluating: translations that return the message itself, a
  formatter that answers with the pattern and the locale, and an interpolation that lists
  the arguments after the phrase.
\<close>

definition renderable :: "Date \<Rightarrow> bool" where
  "renderable d = (month d \<noteq> None \<or> (year d \<noteq> None \<and> day d = None))"

definition side_renderable :: "Date option \<Rightarrow> bool" where
  "side_renderable b = (case b of None \<Rightarrow> False | Some d \<Rightarrow> renderable d)"

definition plain_env :: locale_env where
  "plain_env =
     \<lparr>gettext = (\<lambda>msgid. msgid),
      interpolate = (\<lambda>phrase args. Inr (phrase @ concat (map (\<lambda>(k, v). '' | '' @ k @ ''='' @ v) args))),
      babel_format_date = (\<lambda>dt pattern locale. Inr (pattern @ ''@'' @ locale))\<rparr>"

text \<open>
  An outside world that never raises \<open>IncompleteDateError\<close> itself: the error is the
  repository's own class.
\<close>

definition quiet :: "locale_env \<Rightarrow> bool" where
  "quiet env =
     ((\<forall>dt pattern loc. babel_format_date env dt pattern loc \<noteq> Inl IncompleteDateError)
      \<and> (\<forall>phrase args. interpolate env phrase args \<noteq> Inl IncompleteDateError))"

section \<open>The privacy pass (betty/privatizer)\<close>

text \<open>
  The entity classes are those of betty/model/ancestry.py, cut down to what the privacy
  pass reads and writes: the privacy flag (unset, true or false), the associations by
  identifier, the type and the date of an event. A collection of entities is a map from
  identifiers; an association to an entity that is not there is a missing association.
\<close>

type_synonym ident = string

datatype PresenceRole = Subject | Witness | Beneficiary | Attendee

datatype EventType =
    UnknownEventType | Birth | Baptism | Adoption | Death | Funeral | Cremation | Burial
  | Will | Engagement | Marriage | MarriageAnnouncement | Divorce | DivorceAnnouncement
  | Residence | Immigration | Emigration | Occupation | Retirement | Correspondence
  | Confirmation | Missing

record Person =
  person_private :: "bool option"

record Event =
  event_type :: EventType
  event_date :: "Datey option"
  event_private :: "bool option"

record Presence =
  presence_person :: "ident option"
  presence_role :: PresenceRole
  presence_event :: "ident option"

record Citation =
  citation_source :: "ident option"
  citation_private :: "bool option"

record Source =
  source_contained_by :: "ident option"
  source_private :: "bool option"

datatype HasFiles = OfCitation ident | OfSource ident | OfEvent ident | OfPerson ident

record File =
  file_entities :: "HasFiles list"
  file_private :: "bool option"

record Ancestry =
  people :: "ident \<rightharpoonup> Person"
  events :: "ident \<rightharpoonup> Event"
  presences :: "Presence list"
  citations :: "ident \<rightharpoonup> Citation"
  sources :: "ident \<rightharpoonup> Source"
  source_order :: "ident list"
  files :: "ident \<rightharpoonup> File"

text \<open>
  Modelled from the spec: the module betty.privatizer (\<open>privatize\<close> and what it calls) is
  not among the sources, only its tests are. The definitions below follow section 4.3 of
  the specification, rule by rule:
  \<^item> the pass visits the persons, then the events, the citations, the sources and the
    files, the order in which the rules are listed; an entity that is flagged already is
    left as it is; a person with an unset flag is flagged private or not private, and
    any other entity with an unset flag is flagged private when its rule says so and is
    left unset otherwise (the repository's tests expect \<open>False\<close> on persons and
    \<open>None\<close> on the events, citations, sources and files that are not private);
  \<^item> a person is private unless a Subject-role presence of theirs has an event that is an
    end-of-life event (Death, or a final disposition: Cremation, Burial) and is either
    not comparably dated or dated within the threshold, or an event of any type dated
    comparably before the threshold; a presence without an event is skipped;
  \<^item> an event is private iff a Subject-role participant is; a citation iff its source is;
    a source iff the source that contains it is; a file iff a citation, source or event
    it is attached to is. A missing association contributes nothing.
  The threshold is 125 years before the current date. Which boundary of a date range each
  of the two tests reads is a parameter, \<open>range_reading\<close>. The sources are visited in
  \<open>source_order\<close>, since their rule reads a flag of their own kind. The rules for
  citations and sources are the specification's; the repository's tests expect privacy to
  pass from a private citation to its source, which these rules do not do.
\<close>

text \<open>The flag an entity other than a person is left with when its rule gives \<open>b\<close>.\<close>

definition inferred :: "bool \<Rightarrow> bool option" where
  "inferred b = (if b then Some True else None)"

definition end_of_life :: "EventType \<Rightarrow> bool" where
  "end_of_life t = (t = Death \<or> t = Cremation \<or> t = Burial)"

definition lifetime_threshold :: int where
  "lifetime_threshold = 125"

definition threshold_date :: "Date \<Rightarrow> Date" where
  "threshold_date now =
     new_Date (map_option (\<lambda>y. y - lifetime_threshold) (year now)) (month now) (day now)"

record range_reading =
  has_happened :: "DateRange \<Rightarrow> Date option"
  still_to_come :: "DateRange \<Rightarrow> Date option"

definition comparably_dated :: "Datey option \<Rightarrow> bool" where
  "comparably_dated date = (case date of None \<Rightarrow> False | Some x \<Rightarrow> datey_comparable x)"

text \<open>A comparison that holds: it returned true, raised nothing and did not decline.\<close>

definition holds :: "error + pyobj \<Rightarrow> bool" where
  "holds res = (res = Inr (PyBool True))"

definition before_threshold :: "range_reading \<Rightarrow> Date \<Rightarrow> Datey option \<Rightarrow> bool" where
  "before_threshold rd now date =
     (case date of
        None \<Rightarrow> False
      | Some (ADate d) \<Rightarrow> holds (compare_dates Lt d (threshold_date now))
      | Some (ARange r) \<Rightarrow>
          (case has_happened rd r of
             None \<Rightarrow> False
           | Some d \<Rightarrow> holds (compare_dates Lt d (threshold_date now))))"

definition within_threshold :: "range_reading \<Rightarrow> Date \<Rightarrow> Datey option \<Rightarrow> bool" where
  "within_threshold rd now date =
     (case date of
        None \<Rightarrow> False
      | Some (ADate d) \<Rightarrow> holds (compare_dates Ge d (threshold_date now))
      | Some (ARange r) \<Rightarrow>
          (case still_to_come rd r of
             None \<Rightarrow> False
           | Some d \<Rightarrow> holds (compare_dates Ge d (threshold_date now))))"

definition shows_death :: "range_reading \<Rightarrow> Date \<Rightarrow> Event \<Rightarrow> bool" where
  "shows_death rd now ev =
     (end_of_life (event_type ev)
      \<and> (\<not> comparably_dated (event_date ev) \<or> within_threshold rd now (event_date ev)))"

definition person_is_private :: "range_reading \<Rightarrow> Date \<Rightarrow> Event list \<Rightarrow> bool" where
  "person_is_private rd now evs =
     (\<not> list_ex (shows_death rd now) evs
      \<and> \<not> list_ex (\<lambda>ev. before_threshold rd now (event_date ev)) evs)"

text \<open>The events of a person's Subject-role presences, those that are there.\<close>

definition subject_events :: "Ancestry \<Rightarrow> ident \<Rightarrow> Event list" where
  "subject_events a pid =
     List.map_filter
       (\<lambda>pr. if presence_person pr = Some pid \<and> presence_role pr = Subject
             then (case presence_event pr of None \<Rightarrow> None | Some eid \<Rightarrow> events a eid)
             else None)
       (presences a)"

definition is_private :: "bool option \<Rightarrow> bool" where
  "is_private flag = (flag = Some True)"

definition person_flag :: "Ancestry \<Rightarrow> ident option \<Rightarrow> bool option" where
  "person_flag a pid =
     (case pid of None \<Rightarrow> None
      | Some i \<Rightarrow> (case people a i of None \<Rightarrow> None | Some p \<Rightarrow> person_private p))"

definition event_flag :: "Ancestry \<Rightarrow> ident \<Rightarrow> bool option" where
  "event_flag a i = (case events a i of None \<Rightarrow> None | Some e \<Rightarrow> event_private e)"

definition citation_flag :: "Ancestry \<Rightarrow> ident \<Rightarrow> bool option" where
  "citation_flag a i = (case citations a i of None \<Rightarrow> None | Some c \<Rightarrow> citation_private c)"

definition source_flag :: "Ancestry \<Rightarrow> ident option \<Rightarrow> bool option" where
  "source_flag a sid =
     (case sid of None \<Rightarrow> None
      | Some i \<Rightarrow> (case sources a i of None \<Rightarrow> None | Some s \<Rightarrow> source_private s))"

definition privatize_people :: "range_reading \<Rightarrow> Date \<Rightarrow> Ancestry \<Rightarrow> Ancestry" where
  "privatize_people rd now a =
     a\<lparr>people := (\<lambda>i. case people a i of
                         None \<Rightarrow> None
                       | Some p \<Rightarrow>
                           (case person_private p of
                              Some b \<Rightarrow> Some p
                            | None \<Rightarrow>
                                Some (p\<lparr>person_private :=
                                          Some (person_is_private rd now (subject_events a i))\<rparr>)))\<rparr>"

definition subject_is_private :: "Ancestry \<Rightarrow> ident \<Rightarrow> Presence \<Rightarrow> bool" where
  "subject_is_private a eid pr =
     (presence_event pr = Some eid \<and> presence_role pr = Subject
      \<and> is_private (person_flag a (presence_person pr)))"

definition privatize_events :: "Ancestry \<Rightarrow> Ancestry" where
  "privatize_events a =
     a\<lparr>events := (\<lambda>i. case events a i of
                         None \<Rightarrow> None
                       | Some e \<Rightarrow>
                           (case event_private e of
                              Some b \<Rightarrow> Some e
                            | None \<Rightarrow>
                                Some (e\<lparr>event_private :=
                                          inferred (list_ex (subject_is_private a i) (presences a))\<rparr>)))\<rparr>"

definition privatize_citations :: "Ancestry \<Rightarrow> Ancestry" where
  "privatize_citations a =
     a\<lparr>citations := (\<lambda>i. case citations a i of
                            None \<Rightarrow> None
                          | Some c \<Rightarrow>
                              (case citation_private c of
                                 Some b \<Rightarrow> Some c
                               | None \<Rightarrow>
                                   Some (c\<lparr>citation_private :=
                                             inferred (is_private (source_flag a (citation_source c)))\<rparr>)))\<rparr>"

definition privatize_source :: "Ancestry \<Rightarrow> ident \<Rightarrow> Ancestry" where
  "privatize_source a i =
     (case sources a i of
        None \<Rightarrow> a
      | Some s \<Rightarrow>
          (case source_private s of
             Some b \<Rightarrow> a
           | None \<Rightarrow>
               a\<lparr>sources := (sources a)(i \<mapsto>
                    s\<lparr>source_private := inferred (is_private (source_flag a (source_contained_by s)))\<rparr>)\<rparr>))"

definition privatize_sources :: "Ancestry \<Rightarrow> Ancestry" where
  "privatize_sources a = foldl privatize_source a (source_order a)"

fun attached_is_private :: "Ancestry \<Rightarrow> HasFiles \<Rightarrow> bool" where
  "attached_is_private a (OfCitation i) = is_private (citation_flag a i)"
| "attached_is_private a (OfSource i) = is_private (source_flag a (Some i))"
| "attached_is_private a (OfEvent i) = is_private (event_flag a i)"
| "attached_is_private a (OfPerson i) = False"

definition privatize_files :: "Ancestry \<Rightarrow> Ancestry" where
  "privatize_files a =
     a\<lparr>files := (\<lambda>i. case files a i of
                        None \<Rightarrow> None
                      | Some f \<Rightarrow>
                          (case file_private f of
                             Some b \<Rightarrow> Some f
                           | None \<Rightarrow>
                               Some (f\<lparr>file_private :=
                                         inferred (list_ex (attached_is_private a) (file_entities f))\<rparr>)))\<rparr>"

definition privatize :: "range_reading \<Rightarrow> Date \<Rightarrow> Ancestry \<Rightarrow> Ancestry" where
  "privatize rd now a =
     privatize_files (privatize_sources (privatize_citations (privatize_events
       (privatize_people rd now a))))"

text \<open>
  Giving every event the flag \<open>g\<close> assigns to its identifier, and one way to read a
  range: its start for what has happened, its end for what is still to come.
\<close>

definition set_event_flags :: "(ident \<Rightarrow> bool option) \<Rightarrow> Ancestry \<Rightarrow> Ancestry" where
  "set_event_flags g a =
     a\<lparr>events := (\<lambda>i. case events a i of None \<Rightarrow> None
                       | Some e \<Rightarrow> Some (e\<lparr>event_private := g i\<rparr>))\<rparr>"

definition by_boundaries :: range_reading where
  "by_boundaries = \<lparr>has_happened = start, still_to_come = end'\<rparr>"




subsection \<open>Ancestries to evaluate on\<close>

text \<open>
  \<open>no_entities\<close> is the empty ancestry. \<open>lone_birth d\<close> is the ancestry of the
  repository's test \<open>test_privatize_person_without_relatives\<close>: the person \<open>P0\<close> with an
  unset flag, Subject of one Birth dated \<open>d\<close>. \<open>flagged b\<close> holds one entity of each kind
  under the identifier \<open>X0\<close>, each flagged \<open>b\<close>, the person Subject of the event and the
  file attached to the source. \<open>wedding\<close> is an unflagged Marriage with the private \<open>P0\<close>
  as Subject and the unflagged \<open>P1\<close> as Attendee.
\<close>

definition no_entities :: Ancestry where
  "no_entities =
     \<lparr>people = Map.empty, events = Map.empty, presences = [], citations = Map.empty,
      sources = Map.empty, source_order = [], files = Map.empty\<rparr>"


definition flagged :: "bool \<Rightarrow> Ancestry" where
  "flagged b =
     \<lparr>people = [''X0'' \<mapsto> \<lparr>person_private = Some b\<rparr>],
      events = [''X0'' \<mapsto> \<lparr>event_type = Birth, event_date = None, event_private = Some b\<rparr>],
      presences = [\<lparr>presence_person = Some ''X0'', presence_role = Subject,
                     presence_event = Some ''X0''\<rparr>],
      citations = [''X0'' \<mapsto> \<lparr>citation_source = Some ''X0'', citation_private = Some b\<rparr>],
      sources = [''X0'' \<mapsto> \<lparr>source_contained_by = None, source_private = Some b\<rparr>],
      source_order = [''X0''],
      files = [''X0'' \<mapsto> \<lparr>file_entities = [OfSource ''X0''], file_private = Some b\<rparr>]\<rparr>"

definition wedding :: Ancestry where
  "wedding =
     no_entities
       \<lparr>people := [''P0'' \<mapsto> \<lparr>person_private = Some True\<rparr>,
                   ''P1'' \<mapsto> \<lparr>person_private = None\<rparr>],
        events := [''E0'' \<mapsto> \<lparr>event_type = Marriage, event_date = None,
                                event_private = None\<rparr>],
        presences := [\<lparr>presence_person = Some ''P0'', presence_role = Subject,
                       presence_event = Some ''E0''\<rparr>,
                      \<lparr>presence_person = Some ''P1'', presence_role = Attendee,
                       presence_event = Some ''E0''\<rparr>]\<rparr>"

section \<open>Facts about the comparison\<close>

lemma py_cmp_not_NotImplemented: "py_cmp c a b \<noteq> Inr NotImplemented"
  by (subst py_cmp.simps) (auto split: sum.splits option.splits)

lemma from_lt_NotImplemented [simp]:
  "le_from_lt NotImplemented e = NotImplemented"
  "gt_from_lt NotImplemented e = NotImplemented"
  "ge_from_lt NotImplemented = NotImplemented"
  by (simp_all add: le_from_lt_def gt_from_lt_def ge_from_lt_def)

lemma richcmp_incomparable:
  "\<not> datey_comparable a \<Longrightarrow> richcmp c a (Some b) = Inr NotImplemented"
proof (cases a)
  case (ADate d)
  assume "\<not> datey_comparable a"
  then show ?thesis using ADate
    by (cases b) (simp_all add: richcmp.simps Date_compare.simps)
next
  case (ARange r)
  assume "\<not> datey_comparable a"
  then have "DateRange_lt r (Some b) = Inr NotImplemented"
    using ARange by (simp add: DateRange_lt.simps)
  then show ?thesis using ARange
    by (cases c) (simp_all add: richcmp.simps)
qed

lemma py_cmp_Date_Date:
  "py_cmp c (Some (ADate d)) (Some (ADate d2)) =
     (if \<not> comparable d \<or> \<not> comparable d2 then Inl TypeError
      else Date_compare d (Some (ADate d2)) c)"
proof (cases "\<not> comparable d \<or> \<not> comparable d2")
  case True
  then show ?thesis
    by (subst py_cmp.simps) (auto simp add: richcmp.simps Date_compare.simps)
next
  case False
  have ne: "Date_compare d (Some (ADate d2)) c \<noteq> Inr NotImplemented"
    using False py_cmp_not_NotImplemented
    by (auto simp: Date_compare.simps tuple_cmp.simps parts_def complete_def item_cmp.simps
             split: sum.splits option.splits)
  show ?thesis using False ne
    by (subst py_cmp.simps) (auto simp add: richcmp.simps split: sum.splits)
qed


section \<open>Facts about \<open>to_range\<close>\<close>

lemma mod_400_4: "(y::int) mod 400 = 0 \<Longrightarrow> y mod 4 = 0"
proof -
  assume a: "y mod 400 = 0"
  have "(4::int) dvd 400" by simp
  then have "y mod 400 mod 4 = y mod 4" by (rule mod_mod_cancel)
  with a show ?thesis by simp
qed

lemma isleap_gregorian: "isleap y = gregorian_leap y"
  unfolding isleap_def gregorian_leap_def dvd_eq_mod_eq_0
  using mod_400_4 [of y] by (cases "y mod 400 = 0") simp_all

lemma monthrange_last_day:
  "1 \<le> m \<Longrightarrow> m \<le> 12 \<Longrightarrow> monthrange y m = Inr (last_day y m)"
  by (simp add: monthrange_def last_day_def mdays_def isleap_gregorian)

lemma monthrange_illegal:
  "\<not> (1 \<le> m \<and> m \<le> 12) \<Longrightarrow> monthrange y m = Inl IllegalMonthError"
  by (simp add: monthrange_def)

lemma to_range_no_year: "year d = None \<Longrightarrow> to_range d = Inl ValueError"
  by (simp add: to_range_def)

lemma to_range_with_day:
  "year d = Some y \<Longrightarrow> day d = Some x \<Longrightarrow>
   to_range d = Inr (new_DateRange (Some (new_Date (Some y) (Some (month_start_of d)) (Some x)))
                                   (Some (new_Date (Some y) (Some (month_end_of d)) (Some x))))"
  by (cases "month d") (simp_all add: to_range_def month_start_of_def month_end_of_def)

lemma to_range_without_day:
  "year d = Some y \<Longrightarrow> day d = None \<Longrightarrow> 1 \<le> month_end_of d \<Longrightarrow> month_end_of d \<le> 12 \<Longrightarrow>
   to_range d = Inr (new_DateRange (Some (new_Date (Some y) (Some (month_start_of d)) (Some 1)))
                                   (Some (new_Date (Some y) (Some (month_end_of d))
                                            (Some (last_day y (month_end_of d))))))"
  using monthrange_last_day [of "month_end_of d" y]
  by (cases "month d") (simp_all add: to_range_def month_start_of_def month_end_of_def)

lemma to_range_illegal_month:
  "year d = Some y \<Longrightarrow> day d = None \<Longrightarrow> \<not> (1 \<le> month_end_of d \<and> month_end_of d \<le> 12) \<Longrightarrow>
   to_range d = Inl IllegalMonthError"
  using monthrange_illegal [of "month_end_of d" y]
  by (cases "month d") (simp_all add: to_range_def month_start_of_def month_end_of_def)

lemma complete_new_Date [simp]: "complete (new_Date (Some y) (Some m) (Some x))"
  by (simp add: complete_def new_Date_def)

lemma new_Date_sel [simp]:
  "year (new_Date y m x) = y" "month (new_Date y m x) = m" "day (new_Date y m x) = x"
  "fuzzy (new_Date y m x) = False"
  by (simp_all add: new_Date_def)


section \<open>Facts about containment\<close>

lemma complete_comparable: "complete d \<Longrightarrow> comparable d"
  by (simp add: complete_def comparable_def)

lemma py_cmp_Le_complete:
  "complete a \<Longrightarrow> complete b \<Longrightarrow>
   py_cmp Le (Some (ADate a)) (Some (ADate b)) = Inr (PyBool (before_eq a b))"
  by (auto simp: py_cmp_Date_Date Date_compare.simps complete_comparable parts_def before_eq_def
        complete_def)

lemma py_cmp_Ge_complete:
  "complete a \<Longrightarrow> complete b \<Longrightarrow>
   py_cmp Ge (Some (ADate a)) (Some (ADate b)) = Inr (PyBool (before_eq b a))"
  by (auto simp: py_cmp_Date_Date Date_compare.simps complete_comparable parts_def before_eq_def
        complete_def)

lemma before_eq_trans: "before_eq a b \<Longrightarrow> before_eq b c \<Longrightarrow> before_eq a c"
  by (auto simp: before_eq_def split: option.splits)

lemma before_eq_linear: "complete a \<Longrightarrow> complete b \<Longrightarrow> before_eq a b \<or> before_eq b a"
  by (auto simp: before_eq_def complete_def split: option.splits)

lemma chain_le_complete:
  "complete a \<Longrightarrow> complete b \<Longrightarrow> complete c \<Longrightarrow>
   chain_le (Some (ADate a)) (Some (ADate b)) (Some (ADate c))
     = Inr (PyBool (before_eq a b \<and> before_eq b c))"
  by (simp add: chain_le_def py_cmp_Le_complete)


lemma operand_Some [simp]: "operand (Some d) = Some (ADate d)" "operand None = None"
  by (simp_all add: operand_def)

lemma has_comparable_simps [simp]:
  "has_comparable None = False" "has_comparable (Some d) = comparable d"
  by (simp_all add: has_comparable_def)

lemma comparable_dates_simps [simp]:
  "comparable_dates None = []"
  "comparable_dates (Some d) = (if comparable d then [d] else [])"
  by (simp_all add: comparable_dates_def)

lemma bounded_contains_date:
  assumes "start self = Some s" "end' self = Some e" "complete s" "complete e" "complete x"
  shows "py_in (ADate x) self = Inr (before_eq s x \<and> before_eq x e)"
  using assms
  by (simp add: py_in_def DateRange_contains_def range_comparable_def complete_comparable
        chain_le_complete)

lemma bounded_contains_until:
  assumes "start self = Some s" "end' self = Some e" "complete s" "complete e"
    and "start r = None" "end' r = Some e2" "complete e2"
  shows "py_in (ARange r) self = Inr (before_eq s e2 \<or> before_eq e e2)"
  using assms
  by (simp add: py_in_def DateRange_contains_def range_comparable_def complete_comparable
        py_or_def py_cmp_Le_complete)

lemma bounded_contains_from:
  assumes "start self = Some s" "end' self = Some e" "complete s" "complete e"
    and "start r = Some s2" "end' r = None" "complete s2"
  shows "py_in (ARange r) self = Inr (before_eq s2 s \<or> before_eq s2 e)"
  using assms
  by (simp add: py_in_def DateRange_contains_def range_comparable_def complete_comparable
        py_or_def py_cmp_Ge_complete)

lemma bounded_contains_bounded:
  assumes "start self = Some s" "end' self = Some e" "complete s" "complete e"
    and "start r = Some s2" "end' r = Some e2" "complete s2" "complete e2"
  shows "py_in (ARange r) self =
           Inr ((before_eq s s2 \<and> before_eq s2 e) \<or> (before_eq s e2 \<and> before_eq e2 e)
                \<or> (before_eq s2 s \<and> before_eq s e2) \<or> (before_eq s2 e \<and> before_eq e e2))"
  using assms
  by (simp add: py_in_def DateRange_contains_def range_comparable_def complete_comparable
        chain_le_complete)



lemma complete_ymd [simp]: "complete (ymd y m x)"
  by (simp add: ymd_def complete_def new_Date_def)

lemma before_eq_ymd [simp]:
  "before_eq (ymd y m x) (ymd y' m' x') = (y < y' \<or> (y = y' \<and> (m < m' \<or> (m = m' \<and> x \<le> x'))))"
  by (simp add: before_eq_def ymd_def new_Date_def)

lemma new_DateRange_sel [simp]:
  "start (new_DateRange a b) = a" "end' (new_DateRange a b) = b"
  "start_is_boundary (new_DateRange a b) = False" "end_is_boundary (new_DateRange a b) = False"
  by (simp_all add: new_DateRange_def)


section \<open>Facts about widened comparison\<close>

lemma to_range_widenable:
  "widenable d \<Longrightarrow> to_range d = Inr (new_DateRange (Some (range_first d)) (Some (range_last d)))"
proof -
  assume w: "widenable d"
  then obtain y where y: "year d = Some y" by (auto simp: widenable_def comparable_def)
  show ?thesis
  proof (cases "day d")
    case None
    then show ?thesis using w y to_range_without_day [of d y]
      by (simp add: widenable_def range_first_def range_last_def)
  next
    case (Some x)
    then show ?thesis using y to_range_with_day [of d y x]
      by (simp add: range_first_def range_last_def)
  qed
qed

lemma to_range_not_widenable:
  "comparable d \<Longrightarrow> \<not> widenable d \<Longrightarrow> to_range d = Inl IllegalMonthError"
proof -
  assume c: "comparable d" and w: "\<not> widenable d"
  then obtain y where y: "year d = Some y" by (auto simp: comparable_def)
  have "day d = None" "\<not> (1 \<le> month_end_of d \<and> month_end_of d \<le> 12)"
    using c w by (auto simp: widenable_def)
  then show ?thesis using to_range_illegal_month [OF y] by simp
qed

lemma not_widenable_incomplete: "\<not> widenable d \<Longrightarrow> comparable d \<Longrightarrow> \<not> complete d"
  by (auto simp: widenable_def complete_def)

lemma complete_range_first [simp]: "comparable d \<Longrightarrow> complete (range_first d)"
  by (simp add: range_first_def complete_def comparable_def)

lemma complete_range_last [simp]: "comparable d \<Longrightarrow> complete (range_last d)"
  by (simp add: range_last_def complete_def comparable_def)

lemma widenable_comparable: "widenable d \<Longrightarrow> comparable d"
  by (simp add: widenable_def)

lemma py_cmp_Lt_complete:
  "complete a \<Longrightarrow> complete b \<Longrightarrow>
   py_cmp Lt (Some (ADate a)) (Some (ADate b)) = Inr (PyBool (before a b))"
  by (auto simp: py_cmp_Date_Date Date_compare.simps complete_comparable parts_def before_def
        complete_def)

lemma not_before: "complete a \<Longrightarrow> complete b \<Longrightarrow> (\<not> before a b) = before_eq b a"
  by (auto simp: before_def before_eq_def complete_def)

text \<open>A range of two complete dates against a complete date.\<close>

lemma DateRange_lt_Date:
  assumes "start r = Some s" "end' r = Some e" "complete s" "complete e" "complete x"
  shows "DateRange_lt r (Some (ADate x)) = Inr (PyBool (before s x))"
  using assms
  by (simp add: DateRange_lt.simps range_comparable_def complete_comparable py_cmp_Lt_complete)

lemma richcmp_Range_Date:
  assumes "start r = Some s" "end' r = Some e" "complete s" "complete e" "complete x"
  shows "richcmp c (ARange r) (Some (ADate x)) =
           Inr (PyBool (if c = Lt \<or> c = Le then before s x else before_eq x s))"
  using assms DateRange_lt_Date [OF assms] not_before [of s x]
  by (cases c) (simp_all add: richcmp.simps le_from_lt_def gt_from_lt_def ge_from_lt_def)

lemma py_cmp_Range_Date:
  assumes "start r = Some s" "end' r = Some e" "complete s" "complete e" "complete x"
  shows "py_cmp c (Some (ARange r)) (Some (ADate x)) =
           Inr (PyBool (if c = Lt \<or> c = Le then before s x else before_eq x s))"
  by (subst py_cmp.simps) (simp add: richcmp_Range_Date [OF assms])

lemma py_cmp_Date_Range:
  assumes "start r = Some s" "end' r = Some e" "complete s" "complete e" "complete x"
  shows "py_cmp c (Some (ADate x)) (Some (ARange r)) =
           Inr (PyBool (if c = Lt \<or> c = Le then before_eq x s else before s x))"
  by (subst py_cmp.simps)
     (cases c; simp add: richcmp_Range_Date [OF assms] richcmp.simps [of _ "ADate x"]
        Date_compare.simps)

text \<open>Two ranges of complete dates.\<close>

lemma DateRange_lt_Range:
  assumes "start r = Some s" "end' r = Some e" "complete s" "complete e"
    and "start r2 = Some s2" "end' r2 = Some e2" "complete s2" "complete e2"
  shows "DateRange_lt r (Some (ARange r2)) =
           Inr (PyBool (if Date_eq s s2 then before e e2 else before s s2))"
  using assms
  by (simp add: DateRange_lt.simps range_comparable_def complete_comparable py_cmp_Lt_complete)

lemma Date_eq_same_day: "Date_eq a b = same_day a b"
  by (simp add: Date_eq_def parts_def same_day_def)

lemma richcmp_Range_Range:
  assumes "complete s" "complete e" "complete s2" "complete e2"
  shows "richcmp c (ARange (new_DateRange (Some s) (Some e)))
                   (Some (ARange (new_DateRange (Some s2) (Some e2)))) =
           Inr (PyBool (let l = (if same_day s s2 then before e e2 else before s s2);
                            q = (same_day s s2 \<and> same_day e e2)
                        in case c of Lt \<Rightarrow> l | Le \<Rightarrow> l \<or> q | Gt \<Rightarrow> \<not> l \<and> \<not> q | Ge \<Rightarrow> \<not> l))"
  using DateRange_lt_Range [of "new_DateRange (Some s) (Some e)" s e
          "new_DateRange (Some s2) (Some e2)" s2 e2] assms
  by (cases c)
     (simp_all add: richcmp.simps le_from_lt_def gt_from_lt_def ge_from_lt_def Date_eq_same_day)

lemma py_cmp_Range_Range:
  assumes "complete s" "complete e" "complete s2" "complete e2"
  shows "py_cmp c (Some (ARange (new_DateRange (Some s) (Some e))))
                  (Some (ARange (new_DateRange (Some s2) (Some e2)))) =
           Inr (PyBool (let l = (if same_day s s2 then before e e2 else before s s2);
                            q = (same_day s s2 \<and> same_day e e2)
                        in case c of Lt \<Rightarrow> l | Le \<Rightarrow> l \<or> q | Gt \<Rightarrow> \<not> l \<and> \<not> q | Ge \<Rightarrow> \<not> l))"
  by (subst py_cmp.simps) (simp add: richcmp_Range_Range [OF assms] Let_def)

lemma compare_dates_widened:
  "comparable d \<Longrightarrow> comparable d2 \<Longrightarrow> \<not> (complete d \<and> complete d2) \<Longrightarrow>
   compare_dates c d d2 =
     (case widen d2 of
        Inl e \<Rightarrow> Inl e
      | Inr w2 \<Rightarrow> (case widen d of Inl e \<Rightarrow> Inl e | Inr w \<Rightarrow> py_cmp c (Some w) (Some w2)))"
  by (auto simp add: compare_dates_def py_cmp_Date_Date Date_compare.simps)

lemma widen_complete: "complete d \<Longrightarrow> widen d = Inr (ADate d)"
  by (simp add: widen_def)

lemma widen_widenable:
  "widenable d \<Longrightarrow> \<not> complete d \<Longrightarrow>
   widen d = Inr (ARange (new_DateRange (Some (range_first d)) (Some (range_last d))))"
  by (simp add: widen_def to_range_widenable)

lemma widen_not_widenable:
  "comparable d \<Longrightarrow> \<not> widenable d \<Longrightarrow> widen d = Inl IllegalMonthError"
  using not_widenable_incomplete [of d] by (simp add: widen_def to_range_not_widenable)

lemma compare_dates_illegal:
  assumes "comparable d" "comparable d2" "\<not> widenable d \<or> \<not> widenable d2"
  shows "compare_dates c d d2 = Inl IllegalMonthError"
proof -
  have nc: "\<not> (complete d \<and> complete d2)"
    using assms not_widenable_incomplete by blast
  show ?thesis
  proof (cases "widenable d2")
    case False
    then show ?thesis
      using assms compare_dates_widened [OF assms(1,2) nc] widen_not_widenable [of d2] by simp
  next
    case True
    then have w: "\<not> widenable d" using assms by simp
    have "\<exists>w2. widen d2 = Inr w2"
      using True widen_complete [of d2] widen_widenable [of d2] by (cases "complete d2") auto
    then show ?thesis
      using assms compare_dates_widened [OF assms(1,2) nc] widen_not_widenable [of d] w by auto
  qed
qed

lemma compare_incomplete_complete:
  assumes "widenable d" "\<not> complete d" "complete x"
  shows "compare_dates c d x =
           Inr (PyBool (if c = Lt \<or> c = Le then before (range_first d) x
                        else before_eq x (range_first d)))"
proof -
  have cd: "comparable d" using assms by (simp add: widenable_def)
  have "compare_dates c d x
          = py_cmp c (Some (ARange (new_DateRange (Some (range_first d)) (Some (range_last d)))))
                     (Some (ADate x))"
    using assms cd compare_dates_widened [of d x c]
    by (simp add: complete_comparable widen_complete widen_widenable)
  then show ?thesis
    using py_cmp_Range_Date [of "new_DateRange (Some (range_first d)) (Some (range_last d))"
             "range_first d" "range_last d" x c] assms cd
    by simp
qed

lemma compare_complete_incomplete:
  assumes "widenable d" "\<not> complete d" "complete x"
  shows "compare_dates c x d =
           Inr (PyBool (if c = Lt \<or> c = Le then before_eq x (range_first d)
                        else before (range_first d) x))"
proof -
  have cd: "comparable d" using assms by (simp add: widenable_def)
  have "compare_dates c x d
          = py_cmp c (Some (ADate x))
                     (Some (ARange (new_DateRange (Some (range_first d)) (Some (range_last d)))))"
    using assms cd compare_dates_widened [of x d c]
    by (simp add: complete_comparable widen_complete widen_widenable)
  then show ?thesis
    using py_cmp_Date_Range [of "new_DateRange (Some (range_first d)) (Some (range_last d))"
             "range_first d" "range_last d" x c] assms cd
    by simp
qed

lemma compare_incomplete_incomplete:
  assumes "widenable d" "\<not> complete d" "widenable d2" "\<not> complete d2"
  shows "compare_dates c d d2 =
           Inr (PyBool (case c of
                          Lt \<Rightarrow> range_lt d d2
                        | Le \<Rightarrow> range_lt d d2 \<or> range_same d d2
                        | Gt \<Rightarrow> \<not> range_lt d d2 \<and> \<not> range_same d d2
                        | Ge \<Rightarrow> \<not> range_lt d d2))"
proof -
  have cd: "comparable d" "comparable d2" using assms by (simp_all add: widenable_def)
  have "compare_dates c d d2
          = py_cmp c (Some (ARange (new_DateRange (Some (range_first d)) (Some (range_last d)))))
                     (Some (ARange (new_DateRange (Some (range_first d2)) (Some (range_last d2)))))"
    using assms cd compare_dates_widened [of d d2 c]
    by (simp add: widen_widenable)
  then show ?thesis
    using py_cmp_Range_Range [of "range_first d" "range_last d" "range_first d2" "range_last d2" c] cd
    by (cases c) (simp_all add: Let_def range_lt_def range_same_def)
qed

lemma widenable_year_only [simp]: "widenable (new_Date (Some y) None None)"
  by (simp add: widenable_def comparable_def month_end_of_def)

lemma incomplete_no_day [simp]: "\<not> complete (new_Date y m None)"
  by (simp add: complete_def)


section \<open>Facts about formatting\<close>

lemma format_date_parts_unrenderable:
  "\<not> side_renderable b \<Longrightarrow> format_date_parts env b loc = Inl IncompleteDateError"
proof (cases b)
  case None
  then show ?thesis by (simp add: format_date_parts_def)
next
  case (Some d)
  assume "\<not> side_renderable b"
  then have "\<not> renderable d" using Some by (simp add: side_renderable_def)
  then show ?thesis using Some
    by (cases "year d"; cases "month d"; cases "day d")
       (simp_all add: format_date_parts_def renderable_def)
qed

lemma range_side_unrenderable:
  "\<not> side_renderable b \<Longrightarrow> range_side env b k loc = Inr None"
  using format_date_parts_unrenderable [of b env loc]
  by (cases b) (simp_all add: range_side_def)


lemma datetime_date_error: "datetime_date y m x = Inl e \<Longrightarrow> e = ValueError"
  by (simp add: datetime_date_def split: if_splits)

lemma format_date_parts_renderable:
  assumes "quiet env" "renderable d"
  shows "format_date_parts env (Some d) loc \<noteq> Inl IncompleteDateError"
proof -
  obtain msgid where m: "FORMAT_DATE_PARTS_FORMATTERS (year d \<noteq> None, month d \<noteq> None, day d \<noteq> None)
                          = Some msgid"
    using assms(2)
    by (cases "year d"; cases "month d"; cases "day d") (simp_all add: renderable_def)
  show ?thesis
  proof (cases "datetime_date (or_1 (year d)) (or_1 (month d)) (or_1 (day d))")
    case (Inl e)
    then show ?thesis using m datetime_date_error [OF Inl]
      by (simp add: format_date_parts_def)
  next
    case (Inr dt)
    have "babel_format_date env dt (gettext env msgid) (bcp_47_to_rfc_1766 loc)
            \<noteq> Inl IncompleteDateError"
      using assms(1) unfolding quiet_def by blast
    then show ?thesis using m Inr
      by (simp add: format_date_parts_def)
  qed
qed

lemma range_side_error: "range_side env b k loc = Inl e \<Longrightarrow> e \<noteq> IncompleteDateError"
  by (cases b) (auto simp: range_side_def split: sum.splits if_splits)

lemma range_side_renderable:
  assumes "quiet env" "side_renderable b"
  shows "range_side env b k loc \<noteq> Inr None"
proof -
  obtain d where d: "b = Some d" "renderable d"
    using assms(2) by (cases b) (simp_all add: side_renderable_def)
  show ?thesis
    using format_date_parts_renderable [OF assms(1) d(2), of loc] d(1)
    by (auto simp: range_side_def split: sum.splits)
qed

lemma format_date_range_error:
  assumes "quiet env" "side_renderable (start r) \<or> side_renderable (end' r)"
  shows "format_date_range env r loc \<noteq> Inl IncompleteDateError"
proof -
  have q: "\<And>phrase args. interpolate env phrase args \<noteq> Inl IncompleteDateError"
    using assms(1) by (simp add: quiet_def)
  have "range_side env (start r) (start_is_boundary r) loc \<noteq> Inr None
        \<or> range_side env (end' r) (end_is_boundary r) loc \<noteq> Inr None"
    using assms range_side_renderable by blast
  then show ?thesis
    using q range_side_error [of env "start r" "start_is_boundary r" loc]
          range_side_error [of env "end' r" "end_is_boundary r" loc]
    by (auto simp: format_date_range_def split: sum.splits option.splits prod.splits)
qed

lemma format_date_error:
  assumes "quiet env" "renderable d"
  shows "format_date env d loc \<noteq> Inl IncompleteDateError"
  using format_date_parts_renderable [OF assms, of loc] assms(1)
  by (auto simp: format_date_def quiet_def split: sum.splits)

lemma format_datey_passes:
  "(case date of ADate d \<Rightarrow> format_date env d loc | ARange r \<Rightarrow> format_date_range env r loc)
     \<noteq> Inl IncompleteDateError \<Longrightarrow>
   format_datey env date loc =
     (case date of ADate d \<Rightarrow> format_date env d loc | ARange r \<Rightarrow> format_date_range env r loc)"
  by (auto simp: format_datey_def split: sum.splits)

lemma quiet_plain_env [simp]: "quiet plain_env"
  by (simp add: quiet_def plain_env_def)


section \<open>Facts about the privacy pass\<close>

lemma privatize_people_other [simp]:
  "events (privatize_people rd now a) = events a"
  "presences (privatize_people rd now a) = presences a"
  "citations (privatize_people rd now a) = citations a"
  "sources (privatize_people rd now a) = sources a"
  "source_order (privatize_people rd now a) = source_order a"
  "files (privatize_people rd now a) = files a"
  by (simp_all add: privatize_people_def)

lemma privatize_events_other [simp]:
  "people (privatize_events a) = people a"
  "presences (privatize_events a) = presences a"
  "citations (privatize_events a) = citations a"
  "sources (privatize_events a) = sources a"
  "source_order (privatize_events a) = source_order a"
  "files (privatize_events a) = files a"
  by (simp_all add: privatize_events_def)

lemma privatize_citations_other [simp]:
  "people (privatize_citations a) = people a"
  "events (privatize_citations a) = events a"
  "presences (privatize_citations a) = presences a"
  "sources (privatize_citations a) = sources a"
  "source_order (privatize_citations a) = source_order a"
  "files (privatize_citations a) = files a"
  by (simp_all add: privatize_citations_def)

lemma privatize_source_other [simp]:
  "people (privatize_source a i) = people a"
  "events (privatize_source a i) = events a"
  "presences (privatize_source a i) = presences a"
  "citations (privatize_source a i) = citations a"
  "source_order (privatize_source a i) = source_order a"
  "files (privatize_source a i) = files a"
  by (simp_all add: privatize_source_def split: option.splits)

lemma foldl_privatize_source_other [simp]:
  "people (foldl privatize_source a xs) = people a"
  "events (foldl privatize_source a xs) = events a"
  "presences (foldl privatize_source a xs) = presences a"
  "citations (foldl privatize_source a xs) = citations a"
  "source_order (foldl privatize_source a xs) = source_order a"
  "files (foldl privatize_source a xs) = files a"
  by (induction xs arbitrary: a) simp_all

lemma privatize_sources_other [simp]:
  "people (privatize_sources a) = people a"
  "events (privatize_sources a) = events a"
  "presences (privatize_sources a) = presences a"
  "citations (privatize_sources a) = citations a"
  "source_order (privatize_sources a) = source_order a"
  "files (privatize_sources a) = files a"
  by (simp_all add: privatize_sources_def)

lemma privatize_files_other [simp]:
  "people (privatize_files a) = people a"
  "events (privatize_files a) = events a"
  "presences (privatize_files a) = presences a"
  "citations (privatize_files a) = citations a"
  "sources (privatize_files a) = sources a"
  "source_order (privatize_files a) = source_order a"
  by (simp_all add: privatize_files_def)

lemma people_privatize: "people (privatize rd now a) = people (privatize_people rd now a)"
  by (simp add: privatize_def)

lemma events_privatize:
  "events (privatize rd now a) = events (privatize_events (privatize_people rd now a))"
  by (simp add: privatize_def)

lemma citations_privatize:
  "citations (privatize rd now a) = citations (privatize_citations (privatize_events (privatize_people rd now a)))"
  by (simp add: privatize_def)

lemma sources_privatize:
  "sources (privatize rd now a) = sources (privatize_sources (privatize_citations (privatize_events (privatize_people rd now a))))"
  by (simp add: privatize_def)

lemma privatize_source_explicit:
  "sources a i = Some s \<Longrightarrow> source_private s = Some b \<Longrightarrow> sources (privatize_source a j) i = Some s"
  by (auto simp: privatize_source_def split: option.splits)

lemma foldl_privatize_source_explicit:
  "sources a i = Some s \<Longrightarrow> source_private s = Some b \<Longrightarrow>
   sources (foldl privatize_source a xs) i = Some s"
proof (induction xs arbitrary: a)
  case Nil
  then show ?case by simp
next
  case (Cons j xs)
  have "sources (privatize_source a j) i = Some s"
    using Cons.prems by (rule privatize_source_explicit)
  then show ?case using Cons.IH [of "privatize_source a j"] Cons.prems(2) by simp
qed

lemma privatize_source_flag_only:
  "sources a i = Some s \<Longrightarrow> \<exists>fl. sources (privatize_source a j) i = Some (s\<lparr>source_private := fl\<rparr>)"
proof (cases "sources (privatize_source a j) i = Some s")
  case True
  assume "sources a i = Some s"
  have "s = s\<lparr>source_private := source_private s\<rparr>" by simp
  then show ?thesis using True by metis
next
  case False
  assume s: "sources a i = Some s"
  then show ?thesis using False
    by (auto simp: privatize_source_def split: option.splits if_splits)
qed

lemma foldl_privatize_source_flag_only:
  "sources a i = Some s \<Longrightarrow>
   \<exists>fl. sources (foldl privatize_source a xs) i = Some (s\<lparr>source_private := fl\<rparr>)"
proof (induction xs arbitrary: a s)
  case Nil
  have "s = s\<lparr>source_private := source_private s\<rparr>" by simp
  then show ?case using Nil by (metis foldl_Nil)
next
  case (Cons j xs)
  obtain fl where fl: "sources (privatize_source a j) i = Some (s\<lparr>source_private := fl\<rparr>)"
    using privatize_source_flag_only [OF Cons.prems] by blast
  obtain fl2 where "sources (foldl privatize_source (privatize_source a j) xs) i
                      = Some (s\<lparr>source_private := fl, source_private := fl2\<rparr>)"
    using Cons.IH [OF fl] by blast
  then show ?case by auto
qed

lemma person_flag_privatize:
  "person_flag (privatize rd now a) pid = person_flag (privatize_people rd now a) pid"
  by (cases pid) (simp_all add: person_flag_def people_privatize)

lemma events_privatize_unset:
  assumes "events a eid = Some e" "event_private e = None"
  shows "events (privatize rd now a) eid =
           Some (e\<lparr>event_private :=
                     inferred (list_ex (subject_is_private (privatize_people rd now a) eid)
                                 (presences a))\<rparr>)"
  using assms by (simp add: events_privatize privatize_events_def)

lemma event_flag_privatize_unset:
  assumes "events a eid = Some e" "event_private e = None"
  shows "event_flag (privatize rd now a) eid =
           inferred (list_ex (\<lambda>pr. presence_event pr = Some eid \<and> presence_role pr = Subject
                               \<and> person_flag (privatize rd now a) (presence_person pr) = Some True)
                       (presences a))"
  using events_privatize_unset [OF assms, of rd now]
  by (simp add: event_flag_def subject_is_private_def [abs_def] is_private_def
        person_flag_privatize)

lemma person_flag_explicit:
  "person_flag a pid = Some b \<Longrightarrow> person_flag (privatize rd now a) pid = Some b"
  by (auto simp: person_flag_def people_privatize privatize_people_def split: option.splits)

text \<open>The person rule reads the type and the date of an event, not its flag.\<close>

lemma shows_death_type_date:
  "event_type ev = event_type ev' \<Longrightarrow> event_date ev = event_date ev' \<Longrightarrow>
   shows_death rd now ev = shows_death rd now ev'"
  by (simp add: shows_death_def)

lemma list_ex_shows_death_cong:
  "map (\<lambda>ev. (event_type ev, event_date ev)) evs = map (\<lambda>ev. (event_type ev, event_date ev)) evs'
   \<Longrightarrow> list_ex (shows_death rd now) evs = list_ex (shows_death rd now) evs'"
proof (induction evs arbitrary: evs')
  case Nil
  then show ?case by simp
next
  case (Cons ev evs)
  then obtain ev' es' where e: "evs' = ev' # es'" by (cases evs') auto
  then show ?case using Cons shows_death_type_date [of ev ev' rd now] by auto
qed

lemma list_ex_before_threshold_cong:
  "map (\<lambda>ev. (event_type ev, event_date ev)) evs = map (\<lambda>ev. (event_type ev, event_date ev)) evs'
   \<Longrightarrow> list_ex (\<lambda>ev. before_threshold rd now (event_date ev)) evs
       = list_ex (\<lambda>ev. before_threshold rd now (event_date ev)) evs'"
proof (induction evs arbitrary: evs')
  case Nil
  then show ?case by simp
next
  case (Cons ev evs)
  then obtain ev' es' where e: "evs' = ev' # es'" by (cases evs') auto
  then show ?case using Cons by auto
qed

lemma person_is_private_cong:
  "map (\<lambda>ev. (event_type ev, event_date ev)) evs = map (\<lambda>ev. (event_type ev, event_date ev)) evs'
   \<Longrightarrow> person_is_private rd now evs = person_is_private rd now evs'"
  using list_ex_shows_death_cong [of evs evs' rd now]
        list_ex_before_threshold_cong [of evs evs' rd now]
  by (simp add: person_is_private_def)

lemma map_filter_set_event_flags:
  "map (\<lambda>ev. (event_type ev, event_date ev))
     (List.map_filter
        (\<lambda>pr. if presence_person pr = Some pid \<and> presence_role pr = Subject
              then (case presence_event pr of None \<Rightarrow> None
                    | Some eid \<Rightarrow> events (set_event_flags g a) eid)
              else None) ps)
   = map (\<lambda>ev. (event_type ev, event_date ev))
     (List.map_filter
        (\<lambda>pr. if presence_person pr = Some pid \<and> presence_role pr = Subject
              then (case presence_event pr of None \<Rightarrow> None | Some eid \<Rightarrow> events a eid)
              else None) ps)"
proof (induction ps)
  case Nil
  then show ?case by (simp add: List.map_filter_simps)
next
  case (Cons pr ps)
  then show ?case
    by (auto simp: List.map_filter_simps set_event_flags_def split: option.splits)
qed

lemma subject_events_set_event_flags:
  "map (\<lambda>ev. (event_type ev, event_date ev)) (subject_events (set_event_flags g a) pid)
   = map (\<lambda>ev. (event_type ev, event_date ev)) (subject_events a pid)"
proof -
  have "presences (set_event_flags g a) = presences a" by (simp add: set_event_flags_def)
  then show ?thesis
    using map_filter_set_event_flags [of pid g a "presences a"]
    by (simp add: subject_events_def)
qed

lemma people_set_event_flags:
  "people (privatize rd now (set_event_flags g a)) = people (privatize rd now a)"
proof -
  have p: "people (set_event_flags g a) = people a" by (simp add: set_event_flags_def)
  have "\<And>i. person_is_private rd now (subject_events (set_event_flags g a) i)
            = person_is_private rd now (subject_events a i)"
    using subject_events_set_event_flags person_is_private_cong by blast
  then have "\<And>i. people (privatize_people rd now (set_event_flags g a)) i
                 = people (privatize_people rd now a) i"
    by (simp add: privatize_people_def p split: option.splits)
  then show ?thesis
    by (simp add: people_privatize fun_eq_iff)
qed





lemma not_end_of_life_Birth [simp]: "\<not> end_of_life Birth"
  by (simp add: end_of_life_def)






section \<open>Widening a date to a range\<close>

text \<open>
  Claim C10, as amended. \<open>to_range\<close> raises \<open>ValueError\<close> when the date has no
  year. When the date has a year it raises the library's \<open>IllegalMonthError\<close> (a
  \<open>ValueError\<close>) if the day is missing and the end month is outside 1..12; otherwise it
  returns a range of two complete dates in the date's year, from the start month to the end
  month, whose days are the date's own day when it has one, and else the first day and the
  last day of the end month (leap years accounted for).
\<close>

theorem to_range_result:
  "(year d = None \<longrightarrow> to_range d = Inl ValueError) \<and>
   (year d \<noteq> None \<and> day d = None \<and> \<not> (1 \<le> month_end_of d \<and> month_end_of d \<le> 12)
      \<longrightarrow> to_range d = Inl IllegalMonthError) \<and>
   (year d \<noteq> None \<and> (day d \<noteq> None \<or> (1 \<le> month_end_of d \<and> month_end_of d \<le> 12))
      \<longrightarrow> (\<exists>s e. to_range d = Inr (new_DateRange (Some s) (Some e))
             \<and> complete s \<and> complete e \<and> year s = year d \<and> year e = year d
             \<and> month s = Some (month_start_of d) \<and> month e = Some (month_end_of d)
             \<and> day s = Some (case day d of None \<Rightarrow> 1 | Some x \<Rightarrow> x)
             \<and> day e = Some (case day d of
                               None \<Rightarrow> last_day (case year d of Some y \<Rightarrow> y | None \<Rightarrow> 0) (month_end_of d)
                             | Some x \<Rightarrow> x)))"
proof (intro conjI impI)
  assume "year d = None"
  then show "to_range d = Inl ValueError" by (rule to_range_no_year)
next
  assume a: "year d \<noteq> None \<and> day d = None \<and> \<not> (1 \<le> month_end_of d \<and> month_end_of d \<le> 12)"
  then obtain y where y: "year d = Some y" by auto
  show "to_range d = Inl IllegalMonthError"
    using to_range_illegal_month [OF y] a by simp
next
  assume a: "year d \<noteq> None \<and> (day d \<noteq> None \<or> (1 \<le> month_end_of d \<and> month_end_of d \<le> 12))"
  then obtain y where y: "year d = Some y" by auto
  show "\<exists>s e. to_range d = Inr (new_DateRange (Some s) (Some e))
             \<and> complete s \<and> complete e \<and> year s = year d \<and> year e = year d
             \<and> month s = Some (month_start_of d) \<and> month e = Some (month_end_of d)
             \<and> day s = Some (case day d of None \<Rightarrow> 1 | Some x \<Rightarrow> x)
             \<and> day e = Some (case day d of
                               None \<Rightarrow> last_day (case year d of Some y \<Rightarrow> y | None \<Rightarrow> 0) (month_end_of d)
                             | Some x \<Rightarrow> x)"
  proof (cases "day d")
    case (Some x)
    show ?thesis
      by (intro exI conjI, rule to_range_with_day [OF y Some]) (simp_all add: y Some)
  next
    case None
    with a have leg: "1 \<le> month_end_of d" "month_end_of d \<le> 12" by auto
    show ?thesis
      by (intro exI conjI, rule to_range_without_day [OF y None leg]) (simp_all add: y None)
  qed
qed

theorem to_range_result_witness:
  "to_range (new_Date None (Some 5) (Some 1)) = Inl ValueError
   \<and> to_range (new_Date (Some 1970) (Some 13) None) = Inl IllegalMonthError
   \<and> (\<exists>s e. to_range (new_Date (Some 1972) (Some 2) None) = Inr (new_DateRange (Some s) (Some e))
        \<and> complete s \<and> complete e \<and> year s = Some 1972 \<and> year e = Some 1972
        \<and> month s = Some 2 \<and> month e = Some 2 \<and> day s = Some 1 \<and> day e = Some 29)"
  using to_range_result [of "new_Date None (Some 5) (Some 1)"]
        to_range_result [of "new_Date (Some 1970) (Some 13) None"]
        to_range_result [of "new_Date (Some 1972) (Some 2) None"]
  by (simp add: month_end_of_def month_start_of_def last_day_def gregorian_leap_def)

theorem to_range_counterexample:
  "year (new_Date (Some 1970) (Some 13) None) = Some 1970
   \<and> to_range (new_Date (Some 1970) (Some 13) None) = Inl IllegalMonthError
   \<and> is_ValueError IllegalMonthError
   \<and> to_range (new_Date (Some 1970) (Some 2) (Some 3))
       = Inr (new_DateRange (Some (new_Date (Some 1970) (Some 2) (Some 3)))
                            (Some (new_Date (Some 1970) (Some 2) (Some 3))))
   \<and> last_day 1970 2 = 28"
  by (simp add: to_range_def new_Date_def monthrange_def last_day_def gregorian_leap_def)

section \<open>Operands without a year\<close>

text \<open>
  Claim C6, as amended. When neither operand has a usable year, each of the four comparison
  methods returns the sentinel \<open>NotImplemented\<close> and raises nothing, whichever operand it
  is called on; the comparison expression built on them then ends in \<open>TypeError\<close>, since
  the method and the reflected method both decline.
\<close>

theorem incomparable_comparison:
  "\<not> datey_comparable a \<and> \<not> datey_comparable b \<longrightarrow>
     richcmp c a (Some b) = Inr NotImplemented
     \<and> richcmp (swapped c) b (Some a) = Inr NotImplemented
     \<and> py_cmp c (Some a) (Some b) = Inl TypeError"
proof (intro impI, elim conjE)
  assume a: "\<not> datey_comparable a" and b: "\<not> datey_comparable b"
  have 1: "richcmp c a (Some b) = Inr NotImplemented" using a by (rule richcmp_incomparable)
  have 2: "richcmp (swapped c) b (Some a) = Inr NotImplemented" using b by (rule richcmp_incomparable)
  have 3: "py_cmp c (Some a) (Some b) = Inl TypeError"
    by (subst py_cmp.simps) (simp add: 1 2)
  from 1 2 3 show "richcmp c a (Some b) = Inr NotImplemented
     \<and> richcmp (swapped c) b (Some a) = Inr NotImplemented
     \<and> py_cmp c (Some a) (Some b) = Inl TypeError" by simp
qed

theorem incomparable_comparison_witness:
  "richcmp Le (ADate (new_Date None (Some 3) None)) (Some (ARange (new_DateRange None None)))
     = Inr NotImplemented
   \<and> richcmp Ge (ARange (new_DateRange None None)) (Some (ADate (new_Date None (Some 3) None)))
     = Inr NotImplemented
   \<and> py_cmp Le (Some (ADate (new_Date None (Some 3) None))) (Some (ARange (new_DateRange None None)))
     = Inl TypeError"
  using incomparable_comparison [of "ADate (new_Date None (Some 3) None)"
          "ARange (new_DateRange None None)" Le]
  by (simp add: comparable_def range_comparable_def has_comparable_def new_DateRange_def)

text \<open>
  The claim as stated fails: \<open>Date() < Date()\<close> raises \<open>TypeError\<close>.
\<close>

theorem incomparable_counterexample:
  "\<not> comparable (new_Date None None None)
   \<and> py_cmp Lt (Some (ADate (new_Date None None None))) (Some (ADate (new_Date None None None)))
       = Inl TypeError"
  by (simp add: py_cmp.simps richcmp.simps Date_compare.simps comparable_def)


section \<open>Comparing an incomplete date\<close>

text \<open>
  Claim C7, as amended. Between two dates that both have a year, not both complete, each
  incomplete one is widened to its covering range, and the comparison is decided on the
  first days of the ranges:
  \<^item> a date without a year is not widened, the comparison raises \<open>TypeError\<close>; a date
    with a year that \<open>to_range\<close> refuses makes it raise \<open>IllegalMonthError\<close>;
  \<^item> an incomplete \<open>d\<close> is \<open><\<close> and \<open><=\<close> a complete \<open>x\<close> exactly when the first
    day of \<open>d\<close>'s range is strictly before \<open>x\<close>, and \<open>>\<close> and \<open>>=\<close> it exactly when
    \<open>x\<close> is on or before that first day; with the operands exchanged the answers are
    exchanged;
  \<^item> two incomplete dates are ordered by the first days of their ranges, and by the last
    days when the first days are the same.
  \<open>Date(1970)\<close> widens to the range from 1970-01-01 to 1970-12-31,
  \<open>Date(1970) < Date(1971, 1, 1)\<close> is true, and \<open>Date(1970) < Date(1970, 1, 1)\<close> is
  false.
\<close>

theorem incomplete_comparison:
  "(\<not> comparable d \<or> \<not> comparable d2 \<longrightarrow> compare_dates c d d2 = Inl TypeError)
   \<and> (comparable d \<and> comparable d2 \<and> (\<not> widenable d \<or> \<not> widenable d2)
        \<longrightarrow> compare_dates c d d2 = Inl IllegalMonthError)
   \<and> (widenable d \<and> \<not> complete d
        \<longrightarrow> widen d = Inr (ARange (new_DateRange (Some (range_first d)) (Some (range_last d)))))
   \<and> (widenable d \<and> \<not> complete d \<and> complete x
        \<longrightarrow> compare_dates c d x =
              Inr (PyBool (if c = Lt \<or> c = Le then before (range_first d) x
                           else before_eq x (range_first d)))
            \<and> compare_dates c x d =
              Inr (PyBool (if c = Lt \<or> c = Le then before_eq x (range_first d)
                           else before (range_first d) x)))
   \<and> (widenable d \<and> \<not> complete d \<and> widenable d2 \<and> \<not> complete d2
        \<longrightarrow> compare_dates c d d2 =
              Inr (PyBool (case c of
                             Lt \<Rightarrow> range_lt d d2
                           | Le \<Rightarrow> range_lt d d2 \<or> range_same d d2
                           | Gt \<Rightarrow> \<not> range_lt d d2 \<and> \<not> range_same d d2
                           | Ge \<Rightarrow> \<not> range_lt d d2)))
   \<and> widen (new_Date (Some 1970) None None)
         = Inr (ARange (new_DateRange (Some (ymd 1970 1 1)) (Some (ymd 1970 12 31))))
   \<and> compare_dates Lt (new_Date (Some 1970) None None) (ymd 1971 1 1) = Inr (PyBool True)
   \<and> compare_dates Lt (new_Date (Some 1970) None None) (ymd 1970 1 1) = Inr (PyBool False)"
proof (intro conjI impI)
  assume "\<not> comparable d \<or> \<not> comparable d2"
  then show "compare_dates c d d2 = Inl TypeError"
    by (simp add: compare_dates_def py_cmp_Date_Date)
next
  assume "comparable d \<and> comparable d2 \<and> (\<not> widenable d \<or> \<not> widenable d2)"
  then show "compare_dates c d d2 = Inl IllegalMonthError"
    using compare_dates_illegal [of d d2 c] by blast
next
  assume "widenable d \<and> \<not> complete d"
  then show "widen d = Inr (ARange (new_DateRange (Some (range_first d)) (Some (range_last d))))"
    by (simp add: widen_widenable)
next
  assume "widenable d \<and> \<not> complete d \<and> complete x"
  then show "compare_dates c d x =
              Inr (PyBool (if c = Lt \<or> c = Le then before (range_first d) x
                           else before_eq x (range_first d)))"
    using compare_incomplete_complete [of d x c] by blast
next
  assume "widenable d \<and> \<not> complete d \<and> complete x"
  then show "compare_dates c x d =
              Inr (PyBool (if c = Lt \<or> c = Le then before_eq x (range_first d)
                           else before (range_first d) x))"
    using compare_complete_incomplete [of d x c] by blast
next
  assume "widenable d \<and> \<not> complete d \<and> widenable d2 \<and> \<not> complete d2"
  then show "compare_dates c d d2 =
              Inr (PyBool (case c of
                             Lt \<Rightarrow> range_lt d d2
                           | Le \<Rightarrow> range_lt d d2 \<or> range_same d d2
                           | Gt \<Rightarrow> \<not> range_lt d d2 \<and> \<not> range_same d d2
                           | Ge \<Rightarrow> \<not> range_lt d d2))"
    using compare_incomplete_incomplete [of d d2 c] by blast
next
  show "widen (new_Date (Some 1970) None None)
         = Inr (ARange (new_DateRange (Some (ymd 1970 1 1)) (Some (ymd 1970 12 31))))"
    by code_simp
next
  show "compare_dates Lt (new_Date (Some 1970) None None) (ymd 1971 1 1) = Inr (PyBool True)"
    by code_simp
next
  show "compare_dates Lt (new_Date (Some 1970) None None) (ymd 1970 1 1) = Inr (PyBool False)"
    by code_simp
qed

theorem incomplete_comparison_witness:
  "compare_dates Lt (new_Date None (Some 5) (Some 1)) (ymd 1970 1 1) = Inl TypeError
   \<and> compare_dates Ge (new_Date (Some 1970) (Some 13) None) (ymd 1970 1 1) = Inl IllegalMonthError
   \<and> compare_dates Le (new_Date (Some 1970) None None) (ymd 1970 1 1) = Inr (PyBool False)
   \<and> compare_dates Lt (ymd 1970 1 1) (new_Date (Some 1970) None None) = Inr (PyBool True)
   \<and> compare_dates Gt (ymd 1970 6 1) (new_Date (Some 1970) None None) = Inr (PyBool True)
   \<and> compare_dates Lt (new_Date (Some 1970) None None) (new_Date (Some 1971) None None)
        = Inr (PyBool True)
   \<and> compare_dates Ge (new_Date (Some 1970) None None) (new_Date (Some 1970) None None)
        = Inr (PyBool True)"
  using incomplete_comparison [of "new_Date None (Some 5) (Some 1)" "ymd 1970 1 1" Lt]
        incomplete_comparison [of "new_Date (Some 1970) (Some 13) None" "ymd 1970 1 1" Ge]
        incomplete_comparison [of "new_Date (Some 1970) None None" _ Le "ymd 1970 1 1"]
        incomplete_comparison [of "new_Date (Some 1970) None None" _ Lt "ymd 1970 1 1"]
        incomplete_comparison [of "new_Date (Some 1970) None None" _ Gt "ymd 1970 6 1"]
        incomplete_comparison [of "new_Date (Some 1970) None None" "new_Date (Some 1971) None None" Lt]
        incomplete_comparison [of "new_Date (Some 1970) None None" "new_Date (Some 1970) None None" Ge]
  by (simp add: comparable_def widenable_def month_end_of_def month_start_of_def range_first_def
        range_last_def range_lt_def range_same_def same_day_def before_def before_eq_def
        ymd_def last_day_def)

text \<open>
  The claim as stated fails on an incomplete date without a year: \<open>Date(None, 5, 1)\<close> has
  no covering range, and comparing it raises \<open>TypeError\<close>.
\<close>

theorem incomplete_counterexample:
  "\<not> complete (new_Date None (Some 5) (Some 1))
   \<and> to_range (new_Date None (Some 5) (Some 1)) = Inl ValueError
   \<and> compare_dates Lt (new_Date None (Some 5) (Some 1)) (ymd 1970 1 1) = Inl TypeError"
  by code_simp

section \<open>Containment and overlap\<close>

text \<open>
  Claim C8, as amended. Two ranges that lack the same boundary (both have no end, or both
  have no start) and have a usable year are reported to overlap, unconditionally. A range
  with no end and a range with no start, on complete dates, overlap exactly when the one's
  start is not after the other's end. A range bounded by two complete dates in order
  contains a well-formed candidate (a complete date, or a range of complete boundaries in
  order with at least one boundary) exactly when the candidate meets the span between them.
\<close>

theorem contains_overlap:
  "(start self \<noteq> None \<and> end' self = None \<and> range_comparable self
      \<and> end' r = None \<and> range_comparable r \<longrightarrow> py_in (ARange r) self = Inr True)
   \<and> (start self = None \<and> end' self \<noteq> None \<and> range_comparable self
      \<and> start r = None \<and> range_comparable r \<longrightarrow> py_in (ARange r) self = Inr True)
   \<and> (start self = Some s \<and> end' self = None \<and> complete s
      \<and> start r = None \<and> end' r = Some e2 \<and> complete e2
      \<longrightarrow> py_in (ARange r) self = Inr (before_eq s e2))
   \<and> (start self = None \<and> end' self = Some e \<and> complete e
      \<and> start r = Some s2 \<and> end' r = None \<and> complete s2
      \<longrightarrow> py_in (ARange r) self = Inr (before_eq s2 e))
   \<and> (start self = Some s \<and> end' self = Some e \<and> complete s \<and> complete e \<and> before_eq s e
      \<and> well_formed other \<longrightarrow> py_in other self = Inr (intersects s e other))"
proof (intro conjI impI)
  assume "start self \<noteq> None \<and> end' self = None \<and> range_comparable self
      \<and> end' r = None \<and> range_comparable r"
  then show "py_in (ARange r) self = Inr True"
    by (simp add: py_in_def DateRange_contains_def)
next
  assume "start self = None \<and> end' self \<noteq> None \<and> range_comparable self
      \<and> start r = None \<and> range_comparable r"
  then show "py_in (ARange r) self = Inr True"
    by (simp add: py_in_def DateRange_contains_def)
next
  assume "start self = Some s \<and> end' self = None \<and> complete s
      \<and> start r = None \<and> end' r = Some e2 \<and> complete e2"
  then show "py_in (ARange r) self = Inr (before_eq s e2)"
    by (simp add: py_in_def DateRange_contains_def range_comparable_def complete_comparable
          py_cmp_Le_complete)
next
  assume "start self = None \<and> end' self = Some e \<and> complete e
      \<and> start r = Some s2 \<and> end' r = None \<and> complete s2"
  then show "py_in (ARange r) self = Inr (before_eq s2 e)"
    by (simp add: py_in_def DateRange_contains_def range_comparable_def complete_comparable
          py_cmp_Le_complete)
next
  assume a: "start self = Some s \<and> end' self = Some e \<and> complete s \<and> complete e \<and> before_eq s e
      \<and> well_formed other"
  show "py_in other self = Inr (intersects s e other)"
  proof (cases other)
    case (ADate x)
    then show ?thesis using a bounded_contains_date [of self s e x] by simp
  next
    case (ARange r)
    show ?thesis
    proof (cases "start r")
      case None
      then obtain e2 where e2: "end' r = Some e2" "complete e2"
        using a ARange by (cases "end' r") simp_all
      have "before_eq s e2 \<or> before_eq e e2 \<longleftrightarrow> before_eq s e2"
        using a before_eq_trans by blast
      then show ?thesis
        using a ARange None e2 bounded_contains_until [of self s e r e2] by simp
    next
      case (Some s2)
      show ?thesis
      proof (cases "end' r")
        case None
        have c: "complete s2" using a ARange Some None by simp
        have "before_eq s2 s \<or> before_eq s2 e \<longleftrightarrow> before_eq s2 e"
          using a before_eq_trans by blast
        then show ?thesis
          using a ARange Some None c bounded_contains_from [of self s e r s2] by simp
      next
        case (Some e2)
        have c: "complete s2" "complete e2" "before_eq s2 e2"
          using a ARange \<open>start r = Some s2\<close> Some by simp_all
        have "((before_eq s s2 \<and> before_eq s2 e) \<or> (before_eq s e2 \<and> before_eq e2 e)
                \<or> (before_eq s2 s \<and> before_eq s e2) \<or> (before_eq s2 e \<and> before_eq e e2))
              \<longleftrightarrow> (before_eq s e2 \<and> before_eq s2 e)"
          using a c before_eq_trans before_eq_linear [of s s2] by blast
        then show ?thesis
          using a ARange \<open>start r = Some s2\<close> Some c
            bounded_contains_bounded [of self s e r s2 e2] by simp
      qed
    qed
  qed
qed


theorem contains_overlap_witness:
  "py_in (ARange (new_DateRange (Some (ymd 1990 1 1)) None))
         (new_DateRange (Some (ymd 2000 1 1)) None) = Inr True
   \<and> py_in (ARange (new_DateRange None (Some (ymd 2000 1 1))))
           (new_DateRange None (Some (ymd 1990 1 1))) = Inr True
   \<and> py_in (ARange (new_DateRange None (Some (ymd 1990 1 1))))
           (new_DateRange (Some (ymd 1980 1 1)) None) = Inr True
   \<and> py_in (ARange (new_DateRange (Some (ymd 1990 1 1)) None))
           (new_DateRange None (Some (ymd 1980 1 1))) = Inr False
   \<and> py_in (ADate (ymd 1985 6 1))
           (new_DateRange (Some (ymd 1970 1 1)) (Some (ymd 1999 12 31))) = Inr True"
  using contains_overlap [where self = "new_DateRange (Some (ymd 2000 1 1)) None"
                            and r = "new_DateRange (Some (ymd 1990 1 1)) None"]
        contains_overlap [where self = "new_DateRange None (Some (ymd 1990 1 1))"
                            and r = "new_DateRange None (Some (ymd 2000 1 1))"]
        contains_overlap [where self = "new_DateRange (Some (ymd 1980 1 1)) None"
                            and r = "new_DateRange None (Some (ymd 1990 1 1))"
                            and s = "ymd 1980 1 1" and ?e2.0 = "ymd 1990 1 1"]
        contains_overlap [where self = "new_DateRange None (Some (ymd 1980 1 1))"
                            and r = "new_DateRange (Some (ymd 1990 1 1)) None"
                            and e = "ymd 1980 1 1" and ?s2.0 = "ymd 1990 1 1"]
        contains_overlap [where self = "new_DateRange (Some (ymd 1970 1 1)) (Some (ymd 1999 12 31))"
                            and s = "ymd 1970 1 1" and e = "ymd 1999 12 31"
                            and other = "ADate (ymd 1985 6 1)"]
  by (simp add: range_comparable_def complete_comparable)

text \<open>
  The claim as stated fails. A range with only a start in 2000 does not contain a range with
  only an end in 1990; two ranges whose end is a date without a year raise \<open>TypeError\<close>;
  and \<open>Date(1970)\<close>, which covers all of 1970, is not in the range from 1970-06-01 to
  1999-12-31.
\<close>

theorem contains_counterexample:
  "py_in (ARange (new_DateRange None (Some (ymd 1990 1 1))))
         (new_DateRange (Some (ymd 2000 1 1)) None) = Inr False
   \<and> py_in (ARange (new_DateRange (Some (ymd 2000 1 1)) (Some (new_Date None None None))))
           (new_DateRange (Some (ymd 2000 1 1)) (Some (new_Date None None None))) = Inl TypeError
   \<and> widen (new_Date (Some 1970) None None)
       = Inr (ARange (new_DateRange (Some (ymd 1970 1 1)) (Some (ymd 1970 12 31))))
   \<and> intersects (ymd 1970 6 1) (ymd 1999 12 31)
         (ARange (new_DateRange (Some (ymd 1970 1 1)) (Some (ymd 1970 12 31))))
   \<and> py_in (ADate (new_Date (Some 1970) None None))
           (new_DateRange (Some (ymd 1970 6 1)) (Some (ymd 1999 12 31))) = Inr False"
  by code_simp

section \<open>Formatting what cannot be rendered\<close>

text \<open>
  Claim C9, as amended. A date renders when it has a month, or a year and no day.
  \<open>format_date\<close> raises \<open>IncompleteDateError\<close> on a date that does not render, and
  \<open>format_date_range\<close> raises it to its caller when neither boundary renders (one
  boundary that does not render is left out of the phrase). \<open>format_datey\<close> catches the
  error of both: for such a date and for such a range alike it returns the translated
  placeholder \<open>unknown date\<close>. With an outside world that never raises the error itself,
  a date that renders and a range with a boundary that renders never raise it, and
  \<open>format_datey\<close> returns what \<open>format_date\<close> and \<open>format_date_range\<close> do. A fuzzy date
  is formatted with the \<open>around\<close> phrase.
\<close>

theorem incomplete_formatting:
  "(\<not> renderable d \<longrightarrow>
      format_date env d loc = Inl IncompleteDateError
      \<and> format_datey env (ADate d) loc = Inr (gettext env ''unknown date''))
   \<and> (\<not> side_renderable (start r) \<and> \<not> side_renderable (end' r) \<longrightarrow>
      format_date_range env r loc = Inl IncompleteDateError
      \<and> format_datey env (ARange r) loc = Inr (gettext env ''unknown date''))
   \<and> (quiet env \<and> renderable d \<longrightarrow>
      format_date env d loc \<noteq> Inl IncompleteDateError
      \<and> format_datey env (ADate d) loc = format_date env d loc)
   \<and> (quiet env \<and> (side_renderable (start r) \<or> side_renderable (end' r)) \<longrightarrow>
      format_date_range env r loc \<noteq> Inl IncompleteDateError
      \<and> format_datey env (ARange r) loc = format_date_range env r loc)
   \<and> format_datey plain_env (ADate ((ymd 1970 1 1)\<lparr>fuzzy := True\<rparr>)) ''en-US''
       = Inr ''around %(date)s | date=MMMM d, y@en_US''
   \<and> format_datey plain_env
        (ARange (new_DateRange (Some (new_Date (Some 1970) None None)) (Some (new_Date None None None))))
        ''nl-NL''
       = Inr ''from %(start_date)s | start_date=y@nl_NL''"
proof (intro conjI impI)
  assume a: "\<not> renderable d"
  then show 1: "format_date env d loc = Inl IncompleteDateError"
    using format_date_parts_unrenderable [of "Some d" env loc]
    by (simp add: format_date_def side_renderable_def)
  then show "format_datey env (ADate d) loc = Inr (gettext env ''unknown date'')"
    by (simp add: format_datey_def)
next
  assume a: "\<not> side_renderable (start r) \<and> \<not> side_renderable (end' r)"
  then show 1: "format_date_range env r loc = Inl IncompleteDateError"
    by (simp add: format_date_range_def range_side_unrenderable)
  then show "format_datey env (ARange r) loc = Inr (gettext env ''unknown date'')"
    by (simp add: format_datey_def)
next
  assume a: "quiet env \<and> renderable d"
  then show 1: "format_date env d loc \<noteq> Inl IncompleteDateError"
    using format_date_error by blast
  then show "format_datey env (ADate d) loc = format_date env d loc"
    using format_datey_passes [where date = "ADate d" and env = env and loc = loc] by simp
next
  assume a: "quiet env \<and> (side_renderable (start r) \<or> side_renderable (end' r))"
  then show 1: "format_date_range env r loc \<noteq> Inl IncompleteDateError"
    using format_date_range_error by blast
  then show "format_datey env (ARange r) loc = format_date_range env r loc"
    using format_datey_passes [where date = "ARange r" and env = env and loc = loc] by simp
next
  show "format_datey plain_env (ADate ((ymd 1970 1 1)\<lparr>fuzzy := True\<rparr>)) ''en-US''
       = Inr ''around %(date)s | date=MMMM d, y@en_US''"
    by code_simp
next
  show "format_datey plain_env
        (ARange (new_DateRange (Some (new_Date (Some 1970) None None)) (Some (new_Date None None None))))
        ''nl-NL''
       = Inr ''from %(start_date)s | start_date=y@nl_NL''"
    by code_simp
qed

theorem incomplete_formatting_witness:
  "format_date plain_env (new_Date (Some 1970) None (Some 3)) ''en-US'' = Inl IncompleteDateError
   \<and> format_datey plain_env (ADate (new_Date (Some 1970) None (Some 3))) ''en-US''
       = Inr ''unknown date''
   \<and> format_date_range plain_env (new_DateRange None (Some (new_Date None None (Some 4)))) ''en-US''
       = Inl IncompleteDateError
   \<and> format_datey plain_env (ARange (new_DateRange None (Some (new_Date None None (Some 4))))) ''en-US''
       = Inr ''unknown date''
   \<and> format_datey plain_env (ADate (ymd 1970 1 1)) ''en-US''
       = format_date plain_env (ymd 1970 1 1) ''en-US''
   \<and> format_datey plain_env (ARange (new_DateRange (Some (ymd 1970 1 1)) None)) ''en-US''
       = format_date_range plain_env (new_DateRange (Some (ymd 1970 1 1)) None) ''en-US''"
proof -
  have u: "\<not> renderable (new_Date (Some 1970) None (Some 3))"
    by (simp add: renderable_def)
  have v: "\<not> side_renderable (start (new_DateRange None (Some (new_Date None None (Some 4)))))
           \<and> \<not> side_renderable (end' (new_DateRange None (Some (new_Date None None (Some 4)))))"
    by (simp add: side_renderable_def renderable_def)
  have w: "quiet plain_env \<and> renderable (ymd 1970 1 1)"
    by (simp add: renderable_def ymd_def)
  have x: "quiet plain_env \<and> (side_renderable (start (new_DateRange (Some (ymd 1970 1 1)) None))
             \<or> side_renderable (end' (new_DateRange (Some (ymd 1970 1 1)) None)))"
    by (simp add: side_renderable_def renderable_def ymd_def)
  have g: "gettext plain_env ''unknown date'' = ''unknown date''"
    by (simp add: plain_env_def)
  show ?thesis
    using u v w x g
      incomplete_formatting [of "new_Date (Some 1970) None (Some 3)" plain_env "''en-US''"
          "new_DateRange None (Some (new_Date None None (Some 4)))"]
      incomplete_formatting [of "ymd 1970 1 1" plain_env "''en-US''"
          "new_DateRange (Some (ymd 1970 1 1)) None"]
    by simp
qed

text \<open>
  The claim as stated fails: through \<open>format_datey\<close> a range with no renderable boundary
  yields the placeholder, the error does not reach the caller; and the incomplete date
  \<open>Date(1970)\<close> is rendered, not replaced by the placeholder.
\<close>

theorem formatting_counterexample:
  "\<not> side_renderable (start (new_DateRange None None))
   \<and> \<not> side_renderable (end' (new_DateRange None None))
   \<and> format_datey plain_env (ARange (new_DateRange None None)) ''en-US'' = Inr ''unknown date''
   \<and> \<not> complete (new_Date (Some 1970) None None)
   \<and> format_datey plain_env (ADate (new_Date (Some 1970) None None)) ''en-US''
       = Inr ''%(date)s | date=y@en_US''"
  by code_simp

section \<open>Explicit flags\<close>

text \<open>
  Claim C5. An entity of any of the five privacy-aware kinds whose flag is set, to true or
  to false, is after the pass what it was before; and every entity is after the pass what
  it was before but for its flag, so only an unset flag is ever given a value.
\<close>

theorem explicit_flags_kept:
  "(people a i = Some p \<and> person_private p = Some b \<longrightarrow> people (privatize rd now a) i = Some p)
   \<and> (events a i = Some e \<and> event_private e = Some b \<longrightarrow> events (privatize rd now a) i = Some e)
   \<and> (citations a i = Some c \<and> citation_private c = Some b
        \<longrightarrow> citations (privatize rd now a) i = Some c)
   \<and> (sources a i = Some s \<and> source_private s = Some b \<longrightarrow> sources (privatize rd now a) i = Some s)
   \<and> (files a i = Some f \<and> file_private f = Some b \<longrightarrow> files (privatize rd now a) i = Some f)
   \<and> (people a i = Some p \<longrightarrow> (\<exists>fl. people (privatize rd now a) i = Some (p\<lparr>person_private := fl\<rparr>)))
   \<and> (events a i = Some e \<longrightarrow> (\<exists>fl. events (privatize rd now a) i = Some (e\<lparr>event_private := fl\<rparr>)))
   \<and> (citations a i = Some c
        \<longrightarrow> (\<exists>fl. citations (privatize rd now a) i = Some (c\<lparr>citation_private := fl\<rparr>)))
   \<and> (sources a i = Some s \<longrightarrow> (\<exists>fl. sources (privatize rd now a) i = Some (s\<lparr>source_private := fl\<rparr>)))
   \<and> (files a i = Some f \<longrightarrow> (\<exists>fl. files (privatize rd now a) i = Some (f\<lparr>file_private := fl\<rparr>)))"
proof (intro conjI impI)
  assume "people a i = Some p \<and> person_private p = Some b"
  then show "people (privatize rd now a) i = Some p"
    by (simp add: people_privatize privatize_people_def)
next
  assume "events a i = Some e \<and> event_private e = Some b"
  then show "events (privatize rd now a) i = Some e"
    by (simp add: events_privatize privatize_events_def)
next
  assume "citations a i = Some c \<and> citation_private c = Some b"
  then show "citations (privatize rd now a) i = Some c"
    by (simp add: citations_privatize privatize_citations_def)
next
  assume "sources a i = Some s \<and> source_private s = Some b"
  then show "sources (privatize rd now a) i = Some s"
    by (simp add: sources_privatize privatize_sources_def foldl_privatize_source_explicit)
next
  assume "files a i = Some f \<and> file_private f = Some b"
  then show "files (privatize rd now a) i = Some f"
    by (simp add: privatize_def privatize_files_def)
next
  assume "people a i = Some p"
  then show "\<exists>fl. people (privatize rd now a) i = Some (p\<lparr>person_private := fl\<rparr>)"
  proof (cases "person_private p")
    case None
    assume "people a i = Some p"
    then have "\<exists>v. people (privatize rd now a) i = Some (p\<lparr>person_private := v\<rparr>)"
      using None by (simp add: people_privatize privatize_people_def) blast
    then show ?thesis by blast
  next
    case (Some v)
    assume "people a i = Some p"
    then have "people (privatize rd now a) i = Some (p\<lparr>person_private := Some v\<rparr>)"
      using Some by (simp add: people_privatize privatize_people_def)
    then show ?thesis by blast
  qed
next
  assume "events a i = Some e"
  then show "\<exists>fl. events (privatize rd now a) i = Some (e\<lparr>event_private := fl\<rparr>)"
  proof (cases "event_private e")
    case None
    assume "events a i = Some e"
    then have "\<exists>v. events (privatize rd now a) i = Some (e\<lparr>event_private := v\<rparr>)"
      using None by (simp add: events_privatize privatize_events_def) blast
    then show ?thesis by blast
  next
    case (Some v)
    assume "events a i = Some e"
    then have "events (privatize rd now a) i = Some (e\<lparr>event_private := Some v\<rparr>)"
      using Some by (simp add: events_privatize privatize_events_def)
    then show ?thesis by blast
  qed
next
  assume "citations a i = Some c"
  then show "\<exists>fl. citations (privatize rd now a) i = Some (c\<lparr>citation_private := fl\<rparr>)"
  proof (cases "citation_private c")
    case None
    assume "citations a i = Some c"
    then have "\<exists>v. citations (privatize rd now a) i = Some (c\<lparr>citation_private := v\<rparr>)"
      using None by (simp add: citations_privatize privatize_citations_def) blast
    then show ?thesis by blast
  next
    case (Some v)
    assume "citations a i = Some c"
    then have "citations (privatize rd now a) i = Some (c\<lparr>citation_private := Some v\<rparr>)"
      using Some by (simp add: citations_privatize privatize_citations_def)
    then show ?thesis by blast
  qed
next
  assume "sources a i = Some s"
  then show "\<exists>fl. sources (privatize rd now a) i = Some (s\<lparr>source_private := fl\<rparr>)"
    by (simp add: sources_privatize privatize_sources_def foldl_privatize_source_flag_only)
next
  assume "files a i = Some f"
  then show "\<exists>fl. files (privatize rd now a) i = Some (f\<lparr>file_private := fl\<rparr>)"
  proof (cases "file_private f")
    case None
    assume "files a i = Some f"
    then have "\<exists>v. files (privatize rd now a) i = Some (f\<lparr>file_private := v\<rparr>)"
      using None by (simp add: privatize_def privatize_files_def) blast
    then show ?thesis by blast
  next
    case (Some v)
    assume "files a i = Some f"
    then have "files (privatize rd now a) i = Some (f\<lparr>file_private := Some v\<rparr>)"
      using Some by (simp add: privatize_def privatize_files_def)
    then show ?thesis by blast
  qed
qed



theorem explicit_flags_kept_witness:
  "people (privatize by_boundaries (ymd 2026 11 4) (flagged False)) ''X0''
     = Some \<lparr>person_private = Some False\<rparr>
   \<and> events (privatize by_boundaries (ymd 2026 11 4) (flagged False)) ''X0''
     = Some \<lparr>event_type = Birth, event_date = None, event_private = Some False\<rparr>
   \<and> citations (privatize by_boundaries (ymd 2026 11 4) (flagged False)) ''X0''
     = Some \<lparr>citation_source = Some ''X0'', citation_private = Some False\<rparr>
   \<and> sources (privatize by_boundaries (ymd 2026 11 4) (flagged False)) ''X0''
     = Some \<lparr>source_contained_by = None, source_private = Some False\<rparr>
   \<and> files (privatize by_boundaries (ymd 2026 11 4) (flagged False)) ''X0''
     = Some \<lparr>file_entities = [OfSource ''X0''], file_private = Some False\<rparr>"
  using explicit_flags_kept [of "flagged False" "''X0''" "\<lparr>person_private = Some False\<rparr>" False
          by_boundaries "ymd 2026 11 4"
          "\<lparr>event_type = Birth, event_date = None, event_private = Some False\<rparr>"
          "\<lparr>citation_source = Some ''X0'', citation_private = Some False\<rparr>"
          "\<lparr>source_contained_by = None, source_private = Some False\<rparr>"
          "\<lparr>file_entities = [OfSource ''X0''], file_private = Some False\<rparr>"]
  by (simp add: flagged_def)

section \<open>Direction of the propagation\<close>

text \<open>
  Claim C3. An event with an unset flag that has a Subject-role presence of a person who is
  private (flagged so before the pass, or found so by it) is set private by the pass; such
  an event is set private exactly when one of its Subject-role participants is private,
  and is left unset otherwise.
  In the other direction nothing flows: whatever flags the events carry, private or not,
  every person ends with the same flag, Subject and Attendee alike.
\<close>

theorem directionality:
  "(events a eid = Some e \<and> event_private e = None \<and> pr \<in> set (presences a)
      \<and> presence_event pr = Some eid \<and> presence_role pr = Subject
      \<and> person_flag (privatize rd now a) (presence_person pr) = Some True
      \<longrightarrow> event_flag (privatize rd now a) eid = Some True)
   \<and> (events a eid = Some e \<and> event_private e = None \<and> pr \<in> set (presences a)
      \<and> presence_event pr = Some eid \<and> presence_role pr = Subject
      \<and> person_flag a (presence_person pr) = Some True
      \<longrightarrow> event_flag (privatize rd now a) eid = Some True)
   \<and> (events a eid = Some e \<and> event_private e = None
      \<longrightarrow> event_flag (privatize rd now a) eid =
            (if list_ex (\<lambda>pr. presence_event pr = Some eid \<and> presence_role pr = Subject
                               \<and> person_flag (privatize rd now a) (presence_person pr) = Some True)
                  (presences a)
             then Some True else None))
   \<and> people (privatize rd now (set_event_flags g a)) = people (privatize rd now a)"
proof (intro conjI impI)
  assume h: "events a eid = Some e \<and> event_private e = None \<and> pr \<in> set (presences a)
      \<and> presence_event pr = Some eid \<and> presence_role pr = Subject
      \<and> person_flag (privatize rd now a) (presence_person pr) = Some True"
  then have "list_ex (\<lambda>pr. presence_event pr = Some eid \<and> presence_role pr = Subject
                               \<and> person_flag (privatize rd now a) (presence_person pr) = Some True)
                    (presences a)"
    unfolding list_ex_iff by blast
  then show "event_flag (privatize rd now a) eid = Some True"
    using h event_flag_privatize_unset [of a eid e rd now] by (simp add: inferred_def)
next
  assume h: "events a eid = Some e \<and> event_private e = None \<and> pr \<in> set (presences a)
      \<and> presence_event pr = Some eid \<and> presence_role pr = Subject
      \<and> person_flag a (presence_person pr) = Some True"
  then have "person_flag (privatize rd now a) (presence_person pr) = Some True"
    using person_flag_explicit by blast
  then have "list_ex (\<lambda>pr. presence_event pr = Some eid \<and> presence_role pr = Subject
                               \<and> person_flag (privatize rd now a) (presence_person pr) = Some True)
                    (presences a)"
    using h unfolding list_ex_iff by blast
  then show "event_flag (privatize rd now a) eid = Some True"
    using h event_flag_privatize_unset [of a eid e rd now] by (simp add: inferred_def)
next
  assume "events a eid = Some e \<and> event_private e = None"
  then show "event_flag (privatize rd now a) eid =
            (if list_ex (\<lambda>pr. presence_event pr = Some eid \<and> presence_role pr = Subject
                               \<and> person_flag (privatize rd now a) (presence_person pr) = Some True)
                  (presences a)
             then Some True else None)"
    using event_flag_privatize_unset [of a eid e rd now] by (simp add: inferred_def)
next
  show "people (privatize rd now (set_event_flags g a)) = people (privatize rd now a)"
    by (rule people_set_event_flags)
qed


theorem directionality_witness:
  "event_flag (privatize by_boundaries (ymd 2026 11 4) wedding) ''E0'' = Some True
   \<and> people (privatize by_boundaries (ymd 2026 11 4) (set_event_flags (\<lambda>i. Some True) wedding))
     = people (privatize by_boundaries (ymd 2026 11 4) wedding)"
proof -
  have h: "events wedding ''E0''
             = Some \<lparr>event_type = Marriage, event_date = None, event_private = None\<rparr>
           \<and> event_private \<lparr>event_type = Marriage, event_date = None, event_private = None\<rparr> = None
           \<and> \<lparr>presence_person = Some ''P0'', presence_role = Subject, presence_event = Some ''E0''\<rparr>
               \<in> set (presences wedding)
           \<and> presence_event \<lparr>presence_person = Some ''P0'', presence_role = Subject,
                              presence_event = Some ''E0''\<rparr> = Some ''E0''
           \<and> presence_role \<lparr>presence_person = Some ''P0'', presence_role = Subject,
                             presence_event = Some ''E0''\<rparr> = Subject
           \<and> person_flag wedding (presence_person \<lparr>presence_person = Some ''P0'',
                 presence_role = Subject, presence_event = Some ''E0''\<rparr>) = Some True"
    by (simp add: wedding_def no_entities_def person_flag_def)
  show ?thesis
    using h directionality [of wedding "''E0''"
            "\<lparr>event_type = Marriage, event_date = None, event_private = None\<rparr>"
            "\<lparr>presence_person = Some ''P0'', presence_role = Subject, presence_event = Some ''E0''\<rparr>"
            by_boundaries "ymd 2026 11 4" "\<lambda>i. Some True"]
    by blast
qed

section \<open>The age threshold\<close>




end
